theory Spec2Isabelle
  imports Main "HOL-Library.Word" "HOL-Library.Sublist"
begin

unbundle bit_operations_syntax

section \<open>The socket layer of adb (adb/sockets.cpp)\<close>

text \<open>
  The embedding follows \<^verbatim>\<open>adb/sockets.cpp\<close>. An \<^verbatim>\<open>asocket*\<close> is an address
  into a store of socket objects (\<^verbatim>\<open>nullptr\<close> is \<open>None\<close>), \<^verbatim>\<open>free\<close> removes the
  object from the store, and the function pointers of the socket are values of a small
  datatype for each slot. What the file does to its collaborators (\<^verbatim>\<open>send_packet\<close>,
  \<^verbatim>\<open>SendOkay\<close>, \<^verbatim>\<open>SendFail\<close>, \<^verbatim>\<open>put_apacket\<close>, \<^verbatim>\<open>fdevent_remove\<close>, \<^verbatim>\<open>adb_write\<close>,
  \<^verbatim>\<open>handle_host_request\<close>) is recorded, in program order, in a trace of events.
\<close>

subsection \<open>Packets\<close>

text \<open>
  The protocol commands stamped by this file. \<open>A_NONE\<close> stands for the command word
  of a header that has been zeroed and not stamped yet.
\<close>

datatype command = A_NONE | A_OPEN | A_OKAY | A_CLSE | A_WRTE

record amessage =
  command :: command
  arg0 :: "32 word"
  arg1 :: "32 word"
  data_length :: "32 word"

text \<open>
  \<^verbatim>\<open>struct apacket\<close>: \<open>len\<close> is the \<^verbatim>\<open>size_t\<close> count of bytes left, \<open>ptr\<close> the
  read cursor as an offset into \<open>data\<close>, and \<open>data\<close> the initialised prefix of the
  fixed buffer. The \<^verbatim>\<open>next\<close> link is the order of the packets in a socket's queue.
\<close>

record apacket =
  msg :: amessage
  len :: nat
  ptr :: nat
  data :: string

definition zero_msg :: amessage where
  "zero_msg = \<lparr>command = A_NONE, arg0 = 0, arg1 = 0, data_length = 0\<rparr>"

text \<open>
  Modelled from the spec: \<^verbatim>\<open>get_apacket\<close> is not under src/. It hands out a packet
  whose header is zeroed (the CLSE of an endpoint without peer carries \<open>arg0 = 0\<close>).
\<close>

definition get_apacket :: apacket where
  "get_apacket = \<lparr>msg = zero_msg, len = 0, ptr = 0, data = []\<rparr>"

subsection \<open>unhex\<close>

text \<open>The \<^verbatim>\<open>switch\<close> of \<^verbatim>\<open>unhex\<close>: the value of one digit, \<open>None\<close> in the default case.\<close>

definition hex_digit :: "char \<Rightarrow> 32 word option" where
  "hex_digit c =
     (if c \<in> set ''0123456789'' then Some (of_char c - of_char (CHR ''0''))
      else if c \<in> set ''abcdef'' then Some (of_char c - of_char (CHR ''a'') + 10)
      else if c \<in> set ''ABCDEF'' then Some (of_char c - of_char (CHR ''A'') + 10)
      else None)"

fun unhex_loop :: "32 word \<Rightarrow> string \<Rightarrow> 32 word" where
  "unhex_loop n [] = n"
| "unhex_loop n (c # cs) =
     (case hex_digit c of
        None \<Rightarrow> 0xffffffff
      | Some d \<Rightarrow> unhex_loop (push_bit 4 n OR d) cs)"

text \<open>\<^verbatim>\<open>unhex(s, len)\<close> reads the \<open>len\<close> characters at \<open>s\<close>.\<close>

definition unhex :: "string \<Rightarrow> int \<Rightarrow> 32 word" where
  "unhex s n = unhex_loop 0 (take (nat n) s)"

subsection \<open>Sockets and the process state\<close>

type_synonym addr = nat
type_synonym atransport = nat

datatype enqueue_fn = local_socket_enqueue_fn | remote_socket_enqueue_fn | smart_socket_enqueue_fn

datatype ready_fn =
  local_socket_ready_fn | local_socket_ready_notify_fn | remote_socket_ready_fn | smart_socket_ready_fn

datatype shutdown_fn = remote_socket_shutdown_fn

datatype close_fn =
  local_socket_close_fn | local_socket_close_notify_fn | remote_socket_close_fn | smart_socket_close_fn

text \<open>
  \<^verbatim>\<open>struct asocket\<close>. The \<^verbatim>\<open>next\<close>/\<^verbatim>\<open>prev\<close> links are kept as the two lists of the
  process state; \<open>fde_read\<close> and \<open>fde_write\<close> are the \<^verbatim>\<open>FDE_READ\<close> and \<^verbatim>\<open>FDE_WRITE\<close>
  bits of \<^verbatim>\<open>fde.state\<close>; the queue \<^verbatim>\<open>pkt_first\<close> .. \<^verbatim>\<open>pkt_last\<close> is a list, oldest first.
\<close>

record asocket =
  id_field :: "32 word"
  closing :: bool
  has_write_error :: bool
  exit_on_close :: bool
  peer :: "addr option"
  fd :: int
  fde_read :: bool
  fde_write :: bool
  pkt_queue :: "apacket list"
  enqueue :: "enqueue_fn option"
  ready :: "ready_fn option"
  shutdown :: "shutdown_fn option"
  close :: "close_fn option"
  transport :: "atransport option"

datatype TransportType = kTransportUsb | kTransportLocal | kTransportAny

datatype event =
    E_SendPacket "atransport option" apacket
  | E_SendOkay int
  | E_SendFail int string
  | E_PutApacket apacket
  | E_FdeventRemove int
  | E_FdeventInstall int
  | E_AdbWrite int string
  | E_HandleHostRequest string TransportType "string option" int addr

text \<open>
  How the process stands: running, left through \<^verbatim>\<open>exit(1)\<close>, aborted by \<^verbatim>\<open>fatal\<close> or a
  failed \<^verbatim>\<open>CHECK\<close>, or stopped at the dereference of a null or freed pointer.
\<close>

datatype status = Running | Exited | Fatal | Fault

text \<open>
  The two intrusive circular lists are the sequences of their members, read from
  \<^verbatim>\<open>list.next\<close> on; a socket has non-null \<^verbatim>\<open>next\<close> and \<^verbatim>\<open>prev\<close> exactly when it is a
  member of one of them.
\<close>

record world =
  heap :: "addr \<rightharpoonup> asocket"
  local_socket_list :: "addr list"
  local_socket_closing_list :: "addr list"
  local_socket_next_id :: "32 word"
  next_addr :: addr
  writes_done :: nat
  trace :: "event list"
  status :: status

definition emit :: "event \<Rightarrow> world \<Rightarrow> world" where
  "emit e w = (if status w = Running then w\<lparr>trace := trace w @ [e]\<rparr> else w)"

definition halt :: "status \<Rightarrow> world \<Rightarrow> world" where
  "halt st w = (if status w = Running then w\<lparr>status := st\<rparr> else w)"

text \<open>A write through the pointer \<open>s\<close>: a fault when \<open>s\<close> is not a live object.\<close>

definition modify :: "addr \<Rightarrow> (asocket \<Rightarrow> asocket) \<Rightarrow> world \<Rightarrow> world" where
  "modify s f w =
     (if status w \<noteq> Running then w
      else case heap w s of
             None \<Rightarrow> halt Fault w
           | Some so \<Rightarrow> w\<lparr>heap := (heap w)(s \<mapsto> f so)\<rparr>)"

definition free :: "addr \<Rightarrow> world \<Rightarrow> world" where
  "free s w = (if status w = Running then w\<lparr>heap := (heap w)(s := None)\<rparr> else w)"


subsection \<open>Reading through pointers\<close>

definition peer_of :: "addr \<Rightarrow> world \<Rightarrow> addr option" where
  "peer_of s w = (case heap w s of None \<Rightarrow> None | Some so \<Rightarrow> peer so)"

subsection \<open>The event loop's registrar\<close>

datatype fde_flag = FDE_READ | FDE_WRITE

text \<open>
  Modelled from the spec: \<^verbatim>\<open>fdevent_add\<close> and \<^verbatim>\<open>fdevent_del\<close> are not under src/. They
  arm and disarm one readiness bit of the watcher of the socket.
\<close>

definition fdevent_add :: "addr \<Rightarrow> fde_flag \<Rightarrow> world \<Rightarrow> world" where
  "fdevent_add s fl w =
     (case fl of
        FDE_READ \<Rightarrow> modify s (\<lambda>so. so\<lparr>fde_read := True\<rparr>) w
      | FDE_WRITE \<Rightarrow> modify s (\<lambda>so. so\<lparr>fde_write := True\<rparr>) w)"

definition fdevent_del :: "addr \<Rightarrow> fde_flag \<Rightarrow> world \<Rightarrow> world" where
  "fdevent_del s fl w =
     (case fl of
        FDE_READ \<Rightarrow> modify s (\<lambda>so. so\<lparr>fde_read := False\<rparr>) w
      | FDE_WRITE \<Rightarrow> modify s (\<lambda>so. so\<lparr>fde_write := False\<rparr>) w)"

text \<open>
  \<^verbatim>\<open>send_packet(p, t)\<close> hands the packet to the transport layer, and
  \<^verbatim>\<open>put_apacket(p)\<close> gives a packet back: both are events of the trace.
\<close>

definition send_packet :: "apacket \<Rightarrow> atransport option \<Rightarrow> world \<Rightarrow> world" where
  "send_packet p t w = emit (E_SendPacket t p) w"

definition put_apacket :: "apacket \<Rightarrow> world \<Rightarrow> world" where
  "put_apacket p w = emit (E_PutApacket p) w"

text \<open>\<^verbatim>\<open>SendOkay\<close> and \<^verbatim>\<open>SendFail\<close> write a status reply to a file descriptor.\<close>

definition SendOkay :: "int \<Rightarrow> world \<Rightarrow> world" where
  "SendOkay fd' w = emit (E_SendOkay fd') w"

definition SendFail :: "int \<Rightarrow> string \<Rightarrow> world \<Rightarrow> world" where
  "SendFail fd' reason w = emit (E_SendFail fd' reason) w"

subsection \<open>The registry\<close>

datatype socket_list = LOCAL_SOCKET_LIST | LOCAL_SOCKET_CLOSING_LIST

text \<open>
  \<^verbatim>\<open>find_local_socket\<close>: the scan of the main list stops at the first socket whose id is
  \<open>local_id\<close>.
\<close>

fun find_local_socket_loop :: "32 word \<Rightarrow> 32 word \<Rightarrow> addr list \<Rightarrow> world \<Rightarrow> addr option \<times> world" where
  "find_local_socket_loop local_id peer_id [] w = (None, w)"
| "find_local_socket_loop local_id peer_id (s # rest) w =
     (case heap w s of
        None \<Rightarrow> (None, halt Fault w)
      | Some so \<Rightarrow>
          if id_field so \<noteq> local_id then find_local_socket_loop local_id peer_id rest w
          else if peer_id = 0 then (Some s, w)
          else (case peer so of
                  None \<Rightarrow> (None, w)
                | Some p \<Rightarrow>
                    (case heap w p of
                       None \<Rightarrow> (None, halt Fault w)
                     | Some po \<Rightarrow> if id_field po = peer_id then (Some s, w) else (None, w))))"

definition find_local_socket :: "32 word \<Rightarrow> 32 word \<Rightarrow> world \<Rightarrow> addr option \<times> world" where
  "find_local_socket local_id peer_id w =
     (if status w \<noteq> Running then (None, w)
      else find_local_socket_loop local_id peer_id (local_socket_list w) w)"

text \<open>\<^verbatim>\<open>insert_local_socket\<close> links \<open>s\<close> in before the list head, that is at the tail.\<close>

definition insert_local_socket :: "addr \<Rightarrow> socket_list \<Rightarrow> world \<Rightarrow> world" where
  "insert_local_socket s l w =
     (if status w \<noteq> Running then w
      else case heap w s of
             None \<Rightarrow> halt Fault w
           | Some so \<Rightarrow>
               (case l of
                  LOCAL_SOCKET_LIST \<Rightarrow> w\<lparr>local_socket_list := local_socket_list w @ [s]\<rparr>
                | LOCAL_SOCKET_CLOSING_LIST \<Rightarrow>
                    w\<lparr>local_socket_closing_list := local_socket_closing_list w @ [s]\<rparr>))"

definition fatal :: "string \<Rightarrow> world \<Rightarrow> world" where
  "fatal reason w = halt Fatal w"

definition install_local_socket :: "addr \<Rightarrow> world \<Rightarrow> world" where
  "install_local_socket s w =
     (let w1 = modify s (\<lambda>so. so\<lparr>id_field := local_socket_next_id w\<rparr>) w;
          w2 = (if status w1 = Running
                then w1\<lparr>local_socket_next_id := local_socket_next_id w1 + 1\<rparr> else w1);
          w3 = (if local_socket_next_id w2 = 0 then fatal ''local socket id overflow'' w2 else w2)
      in insert_local_socket s LOCAL_SOCKET_LIST w3)"

text \<open>
  \<^verbatim>\<open>remove_socket\<close>: a socket that is linked (a member of one of the lists) is unlinked
  and loses its id; any other socket is left alone.
\<close>

definition remove_socket :: "addr \<Rightarrow> world \<Rightarrow> world" where
  "remove_socket s w =
     (if status w \<noteq> Running then w
      else case heap w s of
             None \<Rightarrow> halt Fault w
           | Some so \<Rightarrow>
               if s \<in> set (local_socket_list w) \<or> s \<in> set (local_socket_closing_list w)
               then w\<lparr>local_socket_list := removeAll s (local_socket_list w),
                      local_socket_closing_list := removeAll s (local_socket_closing_list w),
                      heap := (heap w)(s \<mapsto> so\<lparr>id_field := 0\<rparr>)\<rparr>
               else w)"

subsection \<open>Closing\<close>

text \<open>\<^verbatim>\<open>fdevent_remove\<close> gives up the watcher and closes the file descriptor.\<close>

definition fdevent_remove :: "addr \<Rightarrow> world \<Rightarrow> world" where
  "fdevent_remove s w =
     (if status w \<noteq> Running then w
      else case heap w s of
             None \<Rightarrow> halt Fault w
           | Some so \<Rightarrow> emit (E_FdeventRemove (fd so)) w)"

definition exit_process :: "world \<Rightarrow> world" where
  "exit_process w = halt Exited w"

definition local_socket_destroy :: "addr \<Rightarrow> world \<Rightarrow> world" where
  "local_socket_destroy s w =
     (if status w \<noteq> Running then w
      else case heap w s of
             None \<Rightarrow> halt Fault w
           | Some so \<Rightarrow>
               (let exit_on_close' = exit_on_close so;
                    w1 = fdevent_remove s w;
                    w2 = fold put_apacket (pkt_queue so) w1;
                    w3 = remove_socket s w2;
                    w4 = free s w3
                in if exit_on_close' then exit_process w4 else w4))"

text \<open>
  The second half of \<^verbatim>\<open>local_socket_close\<close>, after the peer has been dealt with: destroy
  at once, or put the socket on the closing list.
\<close>

definition local_socket_close_tail :: "addr \<Rightarrow> world \<Rightarrow> world" where
  "local_socket_close_tail s w =
     (if status w \<noteq> Running then w
      else case heap w s of
             None \<Rightarrow> halt Fault w
           | Some so \<Rightarrow>
               if closing so \<or> has_write_error so \<or> pkt_queue so = []
               then local_socket_destroy s w
               else
                 (let w1 = modify s (\<lambda>so. so\<lparr>closing := True\<rparr>) w;
                      w2 = fdevent_del s FDE_READ w1;
                      w3 = remove_socket s w2;
                      w4 = insert_local_socket s LOCAL_SOCKET_CLOSING_LIST w3
                  in case heap w4 s of
                       None \<Rightarrow> halt Fault w4
                     | Some so4 \<Rightarrow> if fde_write so4 then w4 else halt Fatal w4))"

definition remote_socket_shutdown :: "addr \<Rightarrow> world \<Rightarrow> world" where
  "remote_socket_shutdown s w =
     (if status w \<noteq> Running then w
      else case heap w s of
             None \<Rightarrow> halt Fault w
           | Some so \<Rightarrow>
               (let p = get_apacket;
                    p1 = p\<lparr>msg := (msg p)\<lparr>command := A_CLSE\<rparr>\<rparr>
                in case peer so of
                     None \<Rightarrow> send_packet (p1\<lparr>msg := (msg p1)\<lparr>arg1 := id_field so\<rparr>\<rparr>) (transport so) w
                   | Some q \<Rightarrow>
                       (case heap w q of
                          None \<Rightarrow> halt Fault w
                        | Some qo \<Rightarrow>
                            send_packet
                              (p1\<lparr>msg := (msg p1)\<lparr>arg0 := id_field qo, arg1 := id_field so\<rparr>\<rparr>)
                              (transport so) w)))"

text \<open>\<^verbatim>\<open>if (s->shutdown) s->shutdown(s)\<close>.\<close>

definition asocket_shutdown :: "addr \<Rightarrow> world \<Rightarrow> world" where
  "asocket_shutdown s w =
     (if status w \<noteq> Running then w
      else case heap w s of
             None \<Rightarrow> halt Fault w
           | Some so \<Rightarrow>
               (case shutdown so of
                  None \<Rightarrow> w
                | Some remote_socket_shutdown_fn \<Rightarrow> remote_socket_shutdown s w))"

text \<open>
  The rank that decreases along the calls of the close functions: a call through
  \<^verbatim>\<open>peer->close\<close> is made after the peer's own link has been cleared, and
  \<^verbatim>\<open>local_socket_close_notify\<close> replaces itself before it calls \<^verbatim>\<open>s->close\<close>.
\<close>

definition body_rank :: "addr \<Rightarrow> world \<Rightarrow> nat" where
  "body_rank s w =
     (if status w \<noteq> Running then 0
      else case heap w s of
             None \<Rightarrow> 2
           | Some so \<Rightarrow> if peer so = None then 2 else 6)"

definition close_rank :: "addr \<Rightarrow> world \<Rightarrow> nat" where
  "close_rank s w =
     (if status w \<noteq> Running then 0
      else case heap w s of
             None \<Rightarrow> body_rank s w + 1
           | Some so \<Rightarrow>
               body_rank s w + (if close so = Some local_socket_close_notify_fn then 3 else 1))"

lemma heap_asocket_shutdown: "heap (asocket_shutdown p w) = heap w"
  by (simp add: asocket_shutdown_def remote_socket_shutdown_def send_packet_def emit_def halt_def
      Let_def split: option.splits shutdown_fn.splits)

lemma heap_put_apacket: "heap (put_apacket p w) = heap w"
  by (simp add: put_apacket_def emit_def)

lemma status_put_apacket: "status (put_apacket p w) = status w"
  by (simp add: put_apacket_def emit_def)

lemma close_rank_unlinked:
  assumes "heap x s = Some so" and "peer so = Some p"
    and "peer_of s (modify p (\<lambda>po. po\<lparr>peer := None\<rparr>) x) = Some q"
  shows "close_rank q (modify p (\<lambda>po. po\<lparr>peer := None\<rparr>) x) \<le> 5"
  using assms
  by (auto simp: close_rank_def body_rank_def modify_def peer_of_def halt_def
      split: option.splits if_splits)

lemma body_rank_linked:
  assumes "status w = Running" and "heap w s = Some so" and "peer so = Some p"
  shows "body_rank s w = 6"
  using assms by (simp add: body_rank_def)

text \<open>\<^verbatim>\<open>s->close(s)\<close> and the four close functions it can reach.\<close>

function asocket_close :: "addr \<Rightarrow> world \<Rightarrow> world"
  and local_socket_close :: "addr \<Rightarrow> world \<Rightarrow> world"
  and local_socket_close_notify :: "addr \<Rightarrow> world \<Rightarrow> world"
  and remote_socket_close :: "addr \<Rightarrow> world \<Rightarrow> world"
  and smart_socket_close :: "addr \<Rightarrow> world \<Rightarrow> world"
where
  "asocket_close s w =
     (if status w \<noteq> Running then w
      else case heap w s of
             None \<Rightarrow> halt Fault w
           | Some so \<Rightarrow>
               (case close so of
                  None \<Rightarrow> halt Fault w
                | Some local_socket_close_fn \<Rightarrow> local_socket_close s w
                | Some local_socket_close_notify_fn \<Rightarrow> local_socket_close_notify s w
                | Some remote_socket_close_fn \<Rightarrow> remote_socket_close s w
                | Some smart_socket_close_fn \<Rightarrow> smart_socket_close s w))"
| "local_socket_close s w =
     (if status w \<noteq> Running then w
      else case heap w s of
             None \<Rightarrow> halt Fault w
           | Some so \<Rightarrow>
               (case peer so of
                  None \<Rightarrow> local_socket_close_tail s w
                | Some p \<Rightarrow>
                    (let w1 = asocket_shutdown p w;
                         w2 = modify p (\<lambda>po. po\<lparr>peer := None\<rparr>) w1
                     in case peer_of s w2 of
                          None \<Rightarrow> halt Fault w2
                        | Some p' \<Rightarrow>
                            (let w3 = asocket_close p' w2;
                                 w4 = modify s (\<lambda>so. so\<lparr>peer := None\<rparr>) w3
                             in local_socket_close_tail s w4))))"
| "local_socket_close_notify s w =
     (if status w \<noteq> Running then w
      else case heap w s of
             None \<Rightarrow> halt Fault w
           | Some so \<Rightarrow>
               (let w1 = modify s (\<lambda>so. so\<lparr>ready := Some local_socket_ready_fn, shutdown := None,
                                             close := Some local_socket_close_fn\<rparr>) w;
                    w2 = SendFail (fd so) ''closed'' w1
                in asocket_close s w2))"
| "remote_socket_close s w =
     (if status w \<noteq> Running then w
      else case heap w s of
             None \<Rightarrow> halt Fault w
           | Some so \<Rightarrow>
               (case peer so of
                  None \<Rightarrow> free s w
                | Some p \<Rightarrow>
                    (let w1 = modify p (\<lambda>po. po\<lparr>peer := None\<rparr>) w
                     in case peer_of s w1 of
                          None \<Rightarrow> halt Fault w1
                        | Some p' \<Rightarrow> free s (asocket_close p' w1))))"
| "smart_socket_close s w =
     (if status w \<noteq> Running then w
      else case heap w s of
             None \<Rightarrow> halt Fault w
           | Some so \<Rightarrow>
               (let w0 = (case pkt_queue so of [] \<Rightarrow> w | pkt_first # rest \<Rightarrow> put_apacket pkt_first w)
                in case peer so of
                     None \<Rightarrow> free s w0
                   | Some p \<Rightarrow>
                       (let w1 = modify p (\<lambda>po. po\<lparr>peer := None\<rparr>) w0
                        in case peer_of s w1 of
                             None \<Rightarrow> halt Fault w1
                           | Some p' \<Rightarrow>
                               (let w2 = asocket_close p' w1;
                                    w3 = modify s (\<lambda>so. so\<lparr>peer := None\<rparr>) w2
                                in free s w3))))"
  by pat_completeness auto

termination
proof (relation "measure (\<lambda>x. case x of
      Inl (Inl (s, w)) \<Rightarrow> close_rank s w
    | Inl (Inr (s, w)) \<Rightarrow> body_rank s w
    | Inr (Inl (s, w)) \<Rightarrow> body_rank s w + 2
    | Inr (Inr (Inl (s, w))) \<Rightarrow> body_rank s w
    | Inr (Inr (Inr (s, w))) \<Rightarrow> body_rank s w)", goal_cases)
  case 1
  show ?case by simp
next
  case 2 then show ?case by (simp add: close_rank_def)
next
  case 3 then show ?case by (simp add: close_rank_def)
next
  case 4 then show ?case by (simp add: close_rank_def)
next
  case 5 then show ?case by (simp add: close_rank_def)
next
  case (6 s w so p w1 w2 q)
  have "heap w1 s = Some so" using 6 by (simp add: heap_asocket_shutdown)
  then have "close_rank q w2 \<le> 5" using 6 close_rank_unlinked by blast
  moreover have "body_rank s w = 6" using 6 body_rank_linked by simp
  ultimately show ?case by simp
next
  case (7 s w so w1 w2)
  then show ?case
    by (auto simp: close_rank_def body_rank_def modify_def SendFail_def emit_def)
next
  case (8 s w so p w1 q)
  then have "close_rank q w1 \<le> 5" using close_rank_unlinked by blast
  moreover have "body_rank s w = 6" using 8 body_rank_linked by simp
  ultimately show ?case by simp
next
  case (9 s w so w0 p w1 q)
  have "heap w0 s = Some so" using 9 by (simp add: heap_put_apacket split: list.splits)
  then have "close_rank q w1 \<le> 5" using 9 close_rank_unlinked by blast
  moreover have "body_rank s w = 6" using 9 body_rank_linked by simp
  ultimately show ?case by simp
qed


declare asocket_close.simps [simp del] local_socket_close.simps [simp del]
  local_socket_close_notify.simps [simp del] remote_socket_close.simps [simp del]
  smart_socket_close.simps [simp del]

subsection \<open>What the environment supplies\<close>

text \<open>
  The constants and collaborators that \<^verbatim>\<open>sockets.cpp\<close> takes from the rest of adb
  (\<^verbatim>\<open>adb.h\<close>, the transport layer, the services, \<^verbatim>\<open>sysdeps.h\<close>) are parameters:
  \<^item> \<open>ADB_HOST\<close>, \<open>MAX_PAYLOAD_V1\<close> and \<open>MAX_PAYLOAD\<close> are the macros of those names;
  \<^item> \<open>transport_max_payload t\<close> is \<^verbatim>\<open>t->get_max_payload()\<close> and \<open>transport_offline t\<close>
    is \<^verbatim>\<open>t->GetConnectionState() == kCsOffline\<close>;
  \<^item> \<open>handle_host_request service type serial\<close> is the value returned by the hook of
    that name, paired with the transport it binds to the smart socket, if any;
  \<^item> \<open>host_service_to_socket name serial\<close> is the descriptor of the host service of
    that name, if there is one;
  \<^item> \<open>acquire_one_transport\<close> is the transport found, or none and the error message;
  \<^item> \<open>adb_write_result n\<close> is what the \<open>n\<close>-th call of \<^verbatim>\<open>adb_write\<close> returns, and
    whether \<^verbatim>\<open>errno\<close> is \<^verbatim>\<open>EAGAIN\<close> after it.
\<close>

record adb_env =
  ADB_HOST :: bool
  MAX_PAYLOAD_V1 :: nat
  MAX_PAYLOAD :: nat
  transport_max_payload :: "atransport \<Rightarrow> nat"
  transport_offline :: "atransport \<Rightarrow> bool"
  handle_host_request :: "string \<Rightarrow> TransportType \<Rightarrow> string option \<Rightarrow> int \<times> atransport option"
  host_service_to_socket :: "string \<Rightarrow> string option \<Rightarrow> int option"
  acquire_one_transport :: "atransport option \<times> string"
  adb_write_result :: "nat \<Rightarrow> int \<times> bool"

subsection \<open>Local sockets\<close>

text \<open>
  One call \<^verbatim>\<open>adb_write(fd, p->ptr, p->len)\<close>: the bytes accepted are an event of the
  trace. A write never accepts more than the \<open>len p\<close> bytes it was offered, whatever the
  environment answers.
\<close>

definition adb_write :: "adb_env \<Rightarrow> int \<Rightarrow> apacket \<Rightarrow> world \<Rightarrow> (int \<times> bool) \<times> world" where
  "adb_write env fd' p w =
     (let (r0, eagain) = adb_write_result env (writes_done w);
          r = min r0 (int (len p));
          w1 = w\<lparr>writes_done := Suc (writes_done w)\<rparr>
      in ((r, eagain),
          if r > 0 then emit (E_AdbWrite fd' (take (nat r) (drop (ptr p) (data p)))) w1 else w1))"

text \<open>
  The \<^verbatim>\<open>while (p->len > 0)\<close> loop of \<^verbatim>\<open>local_socket_enqueue\<close>. The first component
  tells whether the loop was left through the error branch.
\<close>

function local_socket_write_loop :: "adb_env \<Rightarrow> int \<Rightarrow> apacket \<Rightarrow> world \<Rightarrow> bool \<times> apacket \<times> world" where
  "local_socket_write_loop env fd' p w =
     (if len p > 0 then
        (case adb_write env fd' p w of
           ((r, eagain), w1) \<Rightarrow>
             if r > 0
             then local_socket_write_loop env fd' (p\<lparr>len := len p - nat r, ptr := ptr p + nat r\<rparr>) w1
             else if r = 0 \<or> \<not> eagain then (True, p, w1)
             else (False, p, w1))
      else (False, p, w))"
  by pat_completeness auto
termination
  by (relation "measure (\<lambda>(env, fd', p, w). len p)") auto

declare local_socket_write_loop.simps [simp del]

definition local_socket_enqueue :: "adb_env \<Rightarrow> addr \<Rightarrow> apacket \<Rightarrow> world \<Rightarrow> int \<times> world" where
  "local_socket_enqueue env s p0 w =
     (if status w \<noteq> Running then (0, w)
      else case heap w s of
             None \<Rightarrow> (0, halt Fault w)
           | Some so \<Rightarrow>
               (let p = p0\<lparr>ptr := 0\<rparr>;
                    enqueue_label = (\<lambda>p w.
                      (1, fdevent_add s FDE_WRITE
                            (modify s (\<lambda>so. so\<lparr>pkt_queue := pkt_queue so @ [p]\<rparr>) w)))
                in if pkt_queue so \<noteq> [] then enqueue_label p w
                   else
                     (case local_socket_write_loop env (fd so) p w of
                        (True, p', w1) \<Rightarrow>
                          (let w2 = put_apacket p' w1;
                               w3 = modify s (\<lambda>so. so\<lparr>has_write_error := True\<rparr>) w2
                           in (1, asocket_close s w3))
                      | (False, p', w1) \<Rightarrow>
                          if len p' = 0 then (0, put_apacket p' w1)
                          else enqueue_label p' w1)))"

definition local_socket_ready :: "addr \<Rightarrow> world \<Rightarrow> world" where
  "local_socket_ready s w = fdevent_add s FDE_READ w"

subsection \<open>Remote sockets\<close>

definition remote_socket_enqueue :: "addr \<Rightarrow> apacket \<Rightarrow> world \<Rightarrow> int \<times> world" where
  "remote_socket_enqueue s p w =
     (if status w \<noteq> Running then (0, w)
      else case heap w s of
             None \<Rightarrow> (0, halt Fault w)
           | Some so \<Rightarrow>
               (case peer so of
                  None \<Rightarrow> (0, halt Fault w)
                | Some q \<Rightarrow>
                    (case heap w q of
                       None \<Rightarrow> (0, halt Fault w)
                     | Some qo \<Rightarrow>
                         (1, send_packet
                               (p\<lparr>msg := (msg p)\<lparr>command := A_WRTE, arg0 := id_field qo,
                                                  arg1 := id_field so,
                                                  data_length := of_nat (len p)\<rparr>\<rparr>)
                               (transport so) w))))"

definition remote_socket_ready :: "addr \<Rightarrow> world \<Rightarrow> world" where
  "remote_socket_ready s w =
     (if status w \<noteq> Running then w
      else case heap w s of
             None \<Rightarrow> halt Fault w
           | Some so \<Rightarrow>
               (case peer so of
                  None \<Rightarrow> halt Fault w
                | Some q \<Rightarrow>
                    (case heap w q of
                       None \<Rightarrow> halt Fault w
                     | Some qo \<Rightarrow>
                         (let p = get_apacket
                          in send_packet
                               (p\<lparr>msg := (msg p)\<lparr>command := A_OKAY, arg0 := id_field qo,
                                                  arg1 := id_field so\<rparr>\<rparr>)
                               (transport so) w))))"

text \<open>
  \<^verbatim>\<open>create_remote_socket\<close>; \<^verbatim>\<open>calloc\<close> hands out the next unused address and zeroes
  the object.
\<close>

definition calloc_asocket :: asocket where
  "calloc_asocket =
     \<lparr>id_field = 0, closing = False, has_write_error = False, exit_on_close = False,
      peer = None, fd = 0, fde_read = False, fde_write = False, pkt_queue = [],
      enqueue = None, ready = None, shutdown = None, close = None, transport = None\<rparr>"

definition calloc :: "world \<Rightarrow> addr \<times> world" where
  "calloc w =
     (if status w \<noteq> Running then (next_addr w, w)
      else (next_addr w,
            w\<lparr>heap := (heap w)(next_addr w \<mapsto> calloc_asocket), next_addr := Suc (next_addr w)\<rparr>))"

definition create_remote_socket :: "32 word \<Rightarrow> atransport option \<Rightarrow> world \<Rightarrow> addr \<times> world" where
  "create_remote_socket id' t w =
     (if id' = 0 then (0, fatal ''invalid remote socket id (0)'' w)
      else case calloc w of
             (s, w1) \<Rightarrow>
               (s, modify s (\<lambda>so. so\<lparr>id_field := id', enqueue := Some remote_socket_enqueue_fn,
                                       ready := Some remote_socket_ready_fn,
                                       shutdown := Some remote_socket_shutdown_fn,
                                       close := Some remote_socket_close_fn,
                                       transport := t\<rparr>) w1))"

definition fdevent_install :: "addr \<Rightarrow> int \<Rightarrow> world \<Rightarrow> world" where
  "fdevent_install s fd' w = emit (E_FdeventInstall fd') w"

definition create_local_socket :: "int \<Rightarrow> world \<Rightarrow> addr \<times> world" where
  "create_local_socket fd' w =
     (case calloc w of
        (s, w1) \<Rightarrow>
          (let w2 = modify s (\<lambda>so. so\<lparr>fd := fd', enqueue := Some local_socket_enqueue_fn,
                                        ready := Some local_socket_ready_fn, shutdown := None,
                                        close := Some local_socket_close_fn\<rparr>) w1;
               w3 = install_local_socket s w2
           in (s, fdevent_install s fd' w3)))"

subsection \<open>\<^verbatim>\<open>asocket::get_max_payload\<close> and \<^verbatim>\<open>connect_to_remote\<close>\<close>

text \<open>\<open>None\<close> when the socket or its peer is not a live object.\<close>

definition get_max_payload :: "adb_env \<Rightarrow> addr \<Rightarrow> world \<Rightarrow> nat option" where
  "get_max_payload env s w =
     (case heap w s of
        None \<Rightarrow> None
      | Some so \<Rightarrow>
          (let max_payload = MAX_PAYLOAD env;
               max_payload1 = (case transport so of
                                 None \<Rightarrow> max_payload
                               | Some t \<Rightarrow> min max_payload (transport_max_payload env t))
           in case peer so of
                None \<Rightarrow> Some max_payload1
              | Some p \<Rightarrow>
                  (case heap w p of
                     None \<Rightarrow> None
                   | Some po \<Rightarrow>
                       (case transport po of
                          None \<Rightarrow> Some max_payload1
                        | Some t \<Rightarrow> Some (min max_payload1 (transport_max_payload env t))))))"

text \<open>
  \<^verbatim>\<open>connect_to_remote\<close>. In \<^verbatim>\<open>len > get_max_payload() - 1\<close> the subtraction is on
  \<^verbatim>\<open>size_t\<close>: with a limit of 0 it wraps to the largest value and the test fails.
\<close>

definition connect_to_remote :: "adb_env \<Rightarrow> addr \<Rightarrow> string \<Rightarrow> world \<Rightarrow> world" where
  "connect_to_remote env s destination w =
     (if status w \<noteq> Running then w
      else case heap w s of
             None \<Rightarrow> halt Fault w
           | Some so \<Rightarrow>
               (let p = get_apacket;
                    len' = length destination + 1
                in case get_max_payload env s w of
                     None \<Rightarrow> halt Fault w
                   | Some mp \<Rightarrow>
                       if mp \<noteq> 0 \<and> len' > mp - 1 then fatal ''destination oversized'' w
                       else send_packet
                              (p\<lparr>msg := (msg p)\<lparr>command := A_OPEN, arg0 := id_field so,
                                                 data_length := of_nat len'\<rparr>,
                                 data := destination @ [CHR 0x00]\<rparr>)
                              (transport so) w))"

subsection \<open>Ready\<close>

definition local_socket_ready_notify :: "addr \<Rightarrow> world \<Rightarrow> world" where
  "local_socket_ready_notify s w =
     (if status w \<noteq> Running then w
      else case heap w s of
             None \<Rightarrow> halt Fault w
           | Some so \<Rightarrow>
               (let w1 = modify s (\<lambda>so. so\<lparr>ready := Some local_socket_ready_fn, shutdown := None,
                                             close := Some local_socket_close_fn\<rparr>) w;
                    w2 = SendOkay (fd so) w1
                in local_socket_ready s w2))"

definition smart_socket_ready :: "addr \<Rightarrow> world \<Rightarrow> world" where
  "smart_socket_ready s w = w"

text \<open>\<^verbatim>\<open>s->ready(s)\<close>.\<close>

definition asocket_ready :: "addr \<Rightarrow> world \<Rightarrow> world" where
  "asocket_ready s w =
     (if status w \<noteq> Running then w
      else case heap w s of
             None \<Rightarrow> halt Fault w
           | Some so \<Rightarrow>
               (case ready so of
                  None \<Rightarrow> halt Fault w
                | Some local_socket_ready_fn \<Rightarrow> local_socket_ready s w
                | Some local_socket_ready_notify_fn \<Rightarrow> local_socket_ready_notify s w
                | Some remote_socket_ready_fn \<Rightarrow> remote_socket_ready s w
                | Some smart_socket_ready_fn \<Rightarrow> smart_socket_ready s w))"

subsection \<open>\<^verbatim>\<open>skip_host_serial\<close>\<close>

text \<open>
  A C string is the list of its characters before the terminating NUL. A pointer into
  it is an offset; \<^verbatim>\<open>strchr\<close> gives the offset of the first occurrence.
\<close>

fun strchr :: "string \<Rightarrow> char \<Rightarrow> nat option" where
  "strchr [] c = None"
| "strchr (x # xs) c = (if x = c then Some 0 else map_option Suc (strchr xs c))"

definition isdigit :: "char \<Rightarrow> bool" where
  "isdigit c = (c \<in> set ''0123456789'')"

text \<open>The character at an offset; past the end it is the terminating NUL.\<close>

definition char_at :: "string \<Rightarrow> nat \<Rightarrow> char" where
  "char_at s i = (if i < length s then s ! i else CHR 0x00)"

text \<open>
  The result is the offset, from the start of \<open>service\<close>, of the colon before the
  command.
\<close>

definition skip_host_serial :: "string \<Rightarrow> nat option" where
  "skip_host_serial service =
     (case List.find (\<lambda>pre. prefix pre service) [''usb:'', ''product:'', ''model:'', ''device:''] of
        Some pre \<Rightarrow> map_option (\<lambda>k. length pre + k) (strchr (drop (length pre) service) CHR '':'')
      | None \<Rightarrow>
          (let off1 = (if prefix ''tcp:'' service \<or> prefix ''udp:'' service then 4 else 0);
               off2 = (if char_at service off1 = CHR ''[''
                       then (case strchr (drop off1 service) CHR '']'' of
                               Some k \<Rightarrow> off1 + k
                             | None \<Rightarrow> off1)
                       else off1)
           in case strchr (drop off2 service) CHR '':'' of
                None \<Rightarrow> None
              | Some k \<Rightarrow>
                  (let colon_ptr = off2 + k
                   in if isdigit (char_at service (colon_ptr + 1))
                      then (let serial_end =
                                  colon_ptr + 1
                                  + length (takeWhile isdigit (drop (colon_ptr + 1) service))
                            in if char_at service serial_end \<noteq> CHR '':'' then Some colon_ptr
                               else Some serial_end)
                      else Some colon_ptr)))"

subsection \<open>The smart socket\<close>

text \<open>
  The C string that starts at offset \<open>i\<close> of a buffer, and the store \<^verbatim>\<open>buf[i] = c\<close>
  (at the end of the initialised prefix it extends the prefix by one byte).
\<close>

definition c_string :: "string \<Rightarrow> nat \<Rightarrow> string" where
  "c_string buf i = takeWhile (\<lambda>c. c \<noteq> CHR 0x00) (drop i buf)"

definition store_byte :: "string \<Rightarrow> nat \<Rightarrow> char \<Rightarrow> string" where
  "store_byte buf i c = take i buf @ [c] @ drop (Suc i) buf"

text \<open>\<^verbatim>\<open>memcpy(dst + off, src, n)\<close> on the initialised prefixes.\<close>

definition memcpy :: "string \<Rightarrow> nat \<Rightarrow> string \<Rightarrow> nat \<Rightarrow> string" where
  "memcpy dst off src n = take off dst @ take n src @ drop (off + n) dst"

definition peer_fd :: "addr \<Rightarrow> world \<Rightarrow> int option" where
  "peer_fd s w =
     (case peer_of s w of
        None \<Rightarrow> None
      | Some p \<Rightarrow> (case heap w p of None \<Rightarrow> None | Some po \<Rightarrow> Some (fd po)))"

text \<open>A statement that goes through \<^verbatim>\<open>s->peer\<close>, and one that reads \<^verbatim>\<open>s->peer->fd\<close>.\<close>

definition on_peer :: "addr \<Rightarrow> (addr \<Rightarrow> world \<Rightarrow> world) \<Rightarrow> world \<Rightarrow> world" where
  "on_peer s f w =
     (if status w \<noteq> Running then w
      else case peer_of s w of None \<Rightarrow> halt Fault w | Some p \<Rightarrow> f p w)"

definition on_peer_fd :: "addr \<Rightarrow> (int \<Rightarrow> world \<Rightarrow> world) \<Rightarrow> world \<Rightarrow> world" where
  "on_peer_fd s f w =
     (if status w \<noteq> Running then w
      else case peer_fd s w of None \<Rightarrow> halt Fault w | Some fd' \<Rightarrow> f fd' w)"

text \<open>The label \<^verbatim>\<open>fail:\<close> of \<^verbatim>\<open>smart_socket_enqueue\<close>.\<close>

definition fail_label :: "addr \<Rightarrow> world \<Rightarrow> int \<times> world" where
  "fail_label s w = (-1, asocket_close s w)"

text \<open>
  The prefix test of the host side: the service after the prefix, the serial, the
  transport type, and the offset in the request at which \<^verbatim>\<open>*serial_end = 0\<close> stores a
  NUL. \<open>None\<close> is \<^verbatim>\<open>service = nullptr\<close>.
\<close>

definition host_prefix :: "string \<Rightarrow> (string \<times> string option \<times> TransportType \<times> nat option) option" where
  "host_prefix request =
     (if prefix ''host-serial:'' request then
        (let service = drop (length ''host-serial:'') request
         in case skip_host_serial service of
              Some serial_end \<Rightarrow>
                Some (drop (serial_end + 1) service, Some (take serial_end service), kTransportAny,
                      Some (length ''host-serial:'' + serial_end))
            | None \<Rightarrow> Some (service, None, kTransportAny, None))
      else if prefix ''host-usb:'' request then
        Some (drop (length ''host-usb:'') request, None, kTransportUsb, None)
      else if prefix ''host-local:'' request then
        Some (drop (length ''host-local:'') request, None, kTransportLocal, None)
      else if prefix ''host:'' request then
        Some (drop (length ''host:'') request, None, kTransportAny, None)
      else None)"

text \<open>
  Modelled from the spec: \<^verbatim>\<open>host_service_to_socket\<close> is not under src/. The endpoint
  it returns is a fresh local endpoint on the descriptor of the service.
\<close>

definition create_host_service_socket :: "adb_env \<Rightarrow> string \<Rightarrow> string option \<Rightarrow> world \<Rightarrow> addr option \<times> world" where
  "create_host_service_socket env name serial w =
     (case host_service_to_socket env name serial of
        None \<Rightarrow> (None, w)
      | Some fd' \<Rightarrow> (case create_local_socket fd' w of (s, w1) \<Rightarrow> (Some s, w1)))"

text \<open>The block \<^verbatim>\<open>if (service) { ... }\<close> of the host side.\<close>

definition smart_socket_host_service ::
  "adb_env \<Rightarrow> addr \<Rightarrow> string \<Rightarrow> TransportType \<Rightarrow> string option \<Rightarrow> world \<Rightarrow> int \<times> world" where
  "smart_socket_host_service env s service type serial w =
     (case peer_fd s w of
        None \<Rightarrow> (0, halt Fault w)
      | Some reply_fd \<Rightarrow>
          (case handle_host_request env service type serial of
             (r, bound) \<Rightarrow>
               (let w1 = emit (E_HandleHostRequest service type serial reply_fd s) w;
                    w2 = (case bound of
                            None \<Rightarrow> w1
                          | Some t \<Rightarrow> modify s (\<lambda>so. so\<lparr>transport := Some t\<rparr>) w1)
                in if r = 0 then fail_label s w2
                   else if prefix ''transport'' service then
                     (0, modify s (\<lambda>so. so\<lparr>pkt_queue :=
                                       (case pkt_queue so of
                                          [] \<Rightarrow> []
                                        | p # rest \<Rightarrow> p\<lparr>len := 0\<rparr> # rest)\<rparr>) w2)
                   else
                     (case create_host_service_socket env service serial w2 of
                        (None, w3) \<Rightarrow>
                          fail_label s (on_peer_fd s (\<lambda>fd'. SendFail fd' ''unknown host service'') w3)
                      | (Some s2, w3) \<Rightarrow>
                          (let w4 = on_peer_fd s SendOkay w3;
                               w5 = on_peer s (\<lambda>p. modify p (\<lambda>po. po
                                      \<lparr>ready := Some local_socket_ready_fn, shutdown := None,
                                       close := Some local_socket_close_fn\<rparr>)) w4;
                               w6 = on_peer s (\<lambda>p. modify p (\<lambda>po. po\<lparr>peer := Some s2\<rparr>)) w5;
                               w7 = modify s2 (\<lambda>so2. so2\<lparr>peer := peer_of s w6\<rparr>) w6;
                               w8 = modify s (\<lambda>so. so\<lparr>peer := None\<rparr>) w7;
                               w9 = asocket_close s w8;
                               w10 = asocket_ready s2 w9
                           in (0, w10))))))"

text \<open>
  The end of \<^verbatim>\<open>smart_socket_enqueue\<close>, from \<^verbatim>\<open>if (!s->transport)\<close> on: the connection
  to the remote service named by the request.
\<close>

definition smart_socket_connect :: "adb_env \<Rightarrow> addr \<Rightarrow> world \<Rightarrow> int \<times> world" where
  "smart_socket_connect env s w =
     (if status w \<noteq> Running then (0, w)
      else case heap w s of
             None \<Rightarrow> (0, halt Fault w)
           | Some so \<Rightarrow>
               (case transport so of
                  None \<Rightarrow>
                    fail_label s
                      (on_peer_fd s (\<lambda>fd'. SendFail fd' ''device offline (no transport)'') w)
                | Some t \<Rightarrow>
                    if transport_offline env t then
                      fail_label s
                        (on_peer_fd s (\<lambda>fd'. SendFail fd' ''device offline (transport offline)'') w)
                    else
                      (let w1 = on_peer s (\<lambda>p. modify p (\<lambda>po. po
                                  \<lparr>ready := Some local_socket_ready_notify_fn, shutdown := None,
                                   close := Some local_socket_close_notify_fn\<rparr>)) w;
                           w2 = on_peer s (\<lambda>p. modify p (\<lambda>po. po\<lparr>peer := None\<rparr>)) w1;
                           w3 = on_peer s (\<lambda>p. modify p (\<lambda>po. po\<lparr>transport := Some t\<rparr>)) w2;
                           destination = (case pkt_queue so of
                                            [] \<Rightarrow> []
                                          | p # rest \<Rightarrow> c_string (data p) 4);
                           w4 = on_peer s (\<lambda>p. connect_to_remote env p destination) w3;
                           w5 = modify s (\<lambda>so. so\<lparr>peer := None\<rparr>) w4;
                           w6 = asocket_close s w5
                       in (1, w6))))"

text \<open>
  The framing step of \<^verbatim>\<open>smart_socket_enqueue\<close>, from the comment "don't bother if we
  can't decode the length" to the store \<^verbatim>\<open>p->data[len + 4] = 0\<close>, on the packet \<open>p\<close> that
  holds the bytes received so far: more bytes are needed (\<^verbatim>\<open>return 0\<close>), or the size is
  bad (\<^verbatim>\<open>goto fail\<close>), or the request is complete; then the result carries the decoded
  length and the buffer with the terminating NUL stored.
\<close>

datatype frame = frame_incomplete | frame_bad_size | frame_complete "32 word" string

definition smart_socket_frame :: "adb_env \<Rightarrow> apacket \<Rightarrow> frame" where
  "smart_socket_frame env p =
     (if len p < 4 then frame_incomplete
      else
        (let len' = unhex (data p) 4
         in if len' < 1 \<or> MAX_PAYLOAD_V1 env < unat len' then frame_bad_size
            else if len p < unat (len' + 4) then frame_incomplete
            else frame_complete len' (store_byte (data p) (unat (len' + 4)) (CHR 0x00))))"

text \<open>
  \<^verbatim>\<open>smart_socket_enqueue\<close> from the framing step on; \<open>p\<close> is \<^verbatim>\<open>s->pkt_first\<close>, the head
  of the queue, and the request is the C string at \<^verbatim>\<open>p->data + 4\<close>.
\<close>

definition smart_socket_request :: "adb_env \<Rightarrow> addr \<Rightarrow> world \<Rightarrow> int \<times> world" where
  "smart_socket_request env s w =
     (if status w \<noteq> Running then (0, w)
      else case heap w s of
             None \<Rightarrow> (0, halt Fault w)
           | Some so \<Rightarrow>
               (case pkt_queue so of
                  [] \<Rightarrow> (0, halt Fault w)
                | p # rest \<Rightarrow>
                    (case smart_socket_frame env p of
                       frame_incomplete \<Rightarrow> (0, w)
                     | frame_bad_size \<Rightarrow> fail_label s w
                     | frame_complete len' data1 \<Rightarrow>
                         (let request = c_string data1 4
                          in if ADB_HOST env then
                               (case host_prefix request of
                                  Some (service, serial, type, nul) \<Rightarrow>
                                    (let data2 = (case nul of
                                                    None \<Rightarrow> data1
                                                  | Some k \<Rightarrow> store_byte data1 (4 + k) (CHR 0x00));
                                         w1 = modify s (\<lambda>so. so\<lparr>pkt_queue := p\<lparr>data := data2\<rparr> # rest\<rparr>) w
                                     in smart_socket_host_service env s service type serial w1)
                                | None \<Rightarrow>
                                    smart_socket_connect env s
                                      (modify s (\<lambda>so. so\<lparr>pkt_queue := p\<lparr>data := data1\<rparr> # rest\<rparr>) w))
                             else
                               (let w1 = modify s (\<lambda>so. so\<lparr>pkt_queue := p\<lparr>data := data1\<rparr> # rest\<rparr>) w
                                in case transport so of
                                     Some t \<Rightarrow> smart_socket_connect env s w1
                                   | None \<Rightarrow>
                                       (case acquire_one_transport env of
                                          (t, error_msg) \<Rightarrow>
                                            (let w2 = modify s (\<lambda>so. so\<lparr>transport := t\<rparr>) w1
                                             in if t = None
                                                then fail_label s
                                                       (on_peer_fd s (\<lambda>fd'. SendFail fd' error_msg) w2)
                                                else smart_socket_connect env s w2)))))))"

definition smart_socket_enqueue :: "adb_env \<Rightarrow> addr \<Rightarrow> apacket \<Rightarrow> world \<Rightarrow> int \<times> world" where
  "smart_socket_enqueue env s p w =
     (if status w \<noteq> Running then (0, w)
      else case heap w s of
             None \<Rightarrow> (0, halt Fault w)
           | Some so \<Rightarrow>
               (case pkt_queue so of
                  [] \<Rightarrow> smart_socket_request env s (modify s (\<lambda>so. so\<lparr>pkt_queue := [p]\<rparr>) w)
                | pkt_first # rest \<Rightarrow>
                    (case get_max_payload env s w of
                       None \<Rightarrow> (0, halt Fault w)
                     | Some max_payload \<Rightarrow>
                         if len pkt_first + len p > max_payload then fail_label s (put_apacket p w)
                         else
                           (let pkt_first' = pkt_first
                                  \<lparr>data := memcpy (data pkt_first) (len pkt_first) (data p) (len p),
                                   len := len pkt_first + len p\<rparr>;
                                w1 = modify s (\<lambda>so. so\<lparr>pkt_queue := pkt_first' # rest\<rparr>) w;
                                w2 = put_apacket p w1
                            in smart_socket_request env s w2))))"

text \<open>\<^verbatim>\<open>s->enqueue(s, p)\<close>.\<close>

definition asocket_enqueue :: "adb_env \<Rightarrow> addr \<Rightarrow> apacket \<Rightarrow> world \<Rightarrow> int \<times> world" where
  "asocket_enqueue env s p w =
     (if status w \<noteq> Running then (0, w)
      else case heap w s of
             None \<Rightarrow> (0, halt Fault w)
           | Some so \<Rightarrow>
               (case enqueue so of
                  None \<Rightarrow> (0, halt Fault w)
                | Some local_socket_enqueue_fn \<Rightarrow> local_socket_enqueue env s p w
                | Some remote_socket_enqueue_fn \<Rightarrow> remote_socket_enqueue s p w
                | Some smart_socket_enqueue_fn \<Rightarrow> smart_socket_enqueue env s p w))"

definition create_smart_socket :: "world \<Rightarrow> addr \<times> world" where
  "create_smart_socket w =
     (case calloc w of
        (s, w1) \<Rightarrow>
          (s, modify s (\<lambda>so. so\<lparr>enqueue := Some smart_socket_enqueue_fn,
                                  ready := Some smart_socket_ready_fn, shutdown := None,
                                  close := Some smart_socket_close_fn\<rparr>) w1))"

definition connect_to_smartsocket :: "addr \<Rightarrow> world \<Rightarrow> world" where
  "connect_to_smartsocket s w =
     (case create_smart_socket w of
        (ss, w1) \<Rightarrow>
          (let w2 = modify s (\<lambda>so. so\<lparr>peer := Some ss\<rparr>) w1;
               w3 = modify ss (\<lambda>sso. sso\<lparr>peer := Some s\<rparr>) w2
           in asocket_ready s w3))"

subsection \<open>\<^verbatim>\<open>close_all_sockets\<close>\<close>

text \<open>
  The \<^verbatim>\<open>for\<close> loop of \<^verbatim>\<open>close_all_sockets\<close>: the first socket of the list whose
  transport, or whose peer's transport, is \<open>t\<close>.
\<close>

fun close_all_sockets_scan :: "atransport option \<Rightarrow> addr list \<Rightarrow> world \<Rightarrow> addr option \<times> world" where
  "close_all_sockets_scan t [] w = (None, w)"
| "close_all_sockets_scan t (s # rest) w =
     (case heap w s of
        None \<Rightarrow> (None, halt Fault w)
      | Some so \<Rightarrow>
          if transport so = t then (Some s, w)
          else (case peer so of
                  None \<Rightarrow> close_all_sockets_scan t rest w
                | Some p \<Rightarrow>
                    (case heap w p of
                       None \<Rightarrow> (None, halt Fault w)
                     | Some po \<Rightarrow>
                         if transport po = t then (Some s, w)
                         else close_all_sockets_scan t rest w)))"

text \<open>
  No close function links a socket into the main list or makes an object: the main list
  of the state after a close is a subsequence of the one before, and every live object
  was live before.
\<close>

definition shrinks :: "world \<Rightarrow> world \<Rightarrow> bool" where
  "shrinks w w' \<longleftrightarrow>
     subseq (local_socket_list w') (local_socket_list w) \<and>
     (\<forall>a. heap w' a \<noteq> None \<longrightarrow> heap w a \<noteq> None)"

text \<open>The number of live members of the main list.\<close>

definition live_members :: "world \<Rightarrow> nat" where
  "live_members w =
     (if status w \<noteq> Running then 0
      else Suc (length (filter (\<lambda>a. heap w a \<noteq> None) (local_socket_list w))))"

lemma shrinks_refl: "shrinks w w"
  by (simp add: shrinks_def)

lemma shrinks_trans: "shrinks w w1 \<Longrightarrow> shrinks w1 w2 \<Longrightarrow> shrinks w w2"
  unfolding shrinks_def using subseq_order.order_trans by blast

lemma shrinks_emit: "shrinks w (emit e w)"
  by (simp add: shrinks_def emit_def)

lemma shrinks_halt: "shrinks w (halt st w)"
  by (simp add: shrinks_def halt_def)

lemma shrinks_modify: "shrinks w (modify s f w)"
  by (simp add: shrinks_def modify_def halt_def split: option.splits)

lemma shrinks_free: "shrinks w (free s w)"
  by (simp add: shrinks_def free_def)

lemma shrinks_put_apacket: "shrinks w (put_apacket p w)"
  by (simp add: put_apacket_def shrinks_emit)

lemma shrinks_fold_put_apacket: "shrinks w (fold put_apacket ps w)"
proof (induction ps arbitrary: w)
  case Nil
  show ?case by (simp add: shrinks_refl)
next
  case (Cons p ps)
  show ?case using shrinks_trans [OF shrinks_put_apacket Cons.IH] by simp
qed

lemma shrinks_remove_socket: "shrinks w (remove_socket s w)"
  by (simp add: shrinks_def remove_socket_def halt_def removeAll_filter_not_eq split: option.splits)

lemma shrinks_insert_closing: "shrinks w (insert_local_socket s LOCAL_SOCKET_CLOSING_LIST w)"
  by (simp add: shrinks_def insert_local_socket_def halt_def split: option.splits)

lemma shrinks_fdevent_del: "shrinks w (fdevent_del s fl w)"
  by (simp add: fdevent_del_def shrinks_modify split: fde_flag.splits)

lemma shrinks_fdevent_remove: "shrinks w (fdevent_remove s w)"
  by (simp add: fdevent_remove_def shrinks_halt shrinks_emit shrinks_refl split: option.splits)

lemma shrinks_local_socket_destroy: "shrinks w (local_socket_destroy s w)"
proof -
  have step: "shrinks w (free s (remove_socket s (fold put_apacket ps (fdevent_remove s w))))" for ps
    by (meson shrinks_trans shrinks_fdevent_remove shrinks_fold_put_apacket shrinks_remove_socket
        shrinks_free)
  show ?thesis
    using step shrinks_trans [OF step shrinks_halt]
    by (simp add: local_socket_destroy_def exit_process_def Let_def shrinks_refl shrinks_halt
        split: option.splits)
qed

lemma shrinks_local_socket_close_tail: "shrinks w (local_socket_close_tail s w)"
proof -
  have step: "shrinks w (insert_local_socket s LOCAL_SOCKET_CLOSING_LIST
                (remove_socket s (fdevent_del s FDE_READ (modify s f w))))" for f
    by (meson shrinks_trans shrinks_modify shrinks_fdevent_del shrinks_remove_socket
        shrinks_insert_closing)
  show ?thesis
    using step shrinks_trans [OF step shrinks_halt]
    by (simp add: local_socket_close_tail_def Let_def shrinks_refl shrinks_halt
        shrinks_local_socket_destroy split: option.splits)
qed

lemma shrinks_asocket_shutdown: "shrinks w (asocket_shutdown s w)"
  by (simp add: asocket_shutdown_def remote_socket_shutdown_def send_packet_def Let_def
      shrinks_refl shrinks_halt shrinks_emit split: option.splits shutdown_fn.splits)

lemmas close_induct =
  asocket_close_local_socket_close_local_socket_close_notify_remote_socket_close_smart_socket_close.induct

lemma shrinks_close:
  shows "shrinks w (asocket_close s w)"
    and "shrinks w (local_socket_close s w)"
    and "shrinks w (local_socket_close_notify s w)"
    and "shrinks w (remote_socket_close s w)"
    and "shrinks w (smart_socket_close s w)"
proof (induction s w and s w and s w and s w and s w rule: close_induct)
  case (1 s w)
  then show ?case
    by (subst asocket_close.simps)
      (simp add: shrinks_refl shrinks_halt split: option.splits close_fn.splits)
next
  case (2 s w)
  show ?case
  proof (cases "status w = Running")
    case False
    then show ?thesis by (subst local_socket_close.simps) (simp add: shrinks_refl)
  next
    case run: True
    show ?thesis
    proof (cases "heap w s")
      case None
      then show ?thesis using run by (subst local_socket_close.simps) (simp add: shrinks_halt)
    next
      case (Some so)
      show ?thesis
      proof (cases "peer so")
        case None
        then show ?thesis using run Some
          by (subst local_socket_close.simps) (simp add: shrinks_local_socket_close_tail)
      next
        case (Some p)
        define w2 where "w2 = modify p (\<lambda>po. po\<lparr>peer := None\<rparr>) (asocket_shutdown p w)"
        have w2: "shrinks w w2"
          unfolding w2_def by (meson shrinks_trans shrinks_asocket_shutdown shrinks_modify)
        show ?thesis
        proof (cases "peer_of s w2")
          case None
          have "local_socket_close s w = halt Fault w2"
            using run \<open>heap w s = Some so\<close> Some None
            by (subst local_socket_close.simps) (simp add: w2_def)
          then show ?thesis using w2 shrinks_halt shrinks_trans by metis
        next
          case (Some q)
          have eq: "local_socket_close s w =
              local_socket_close_tail s (modify s (\<lambda>so. so\<lparr>peer := None\<rparr>) (asocket_close q w2))"
            using run \<open>heap w s = Some so\<close> \<open>peer so = Some p\<close> Some
            by (subst local_socket_close.simps) (simp add: w2_def)
          have "shrinks w2 (asocket_close q w2)"
            using "2.IH" [OF _ \<open>heap w s = Some so\<close> \<open>peer so = Some p\<close> refl w2_def] run Some
            by simp
          then show ?thesis
            unfolding eq
            by (meson shrinks_trans w2 shrinks_modify shrinks_local_socket_close_tail)
        qed
      qed
    qed
  qed
next
  case (3 s w)
  show ?case
  proof (cases "status w = Running")
    case False
    then show ?thesis by (subst local_socket_close_notify.simps) (simp add: shrinks_refl)
  next
    case run: True
    show ?thesis
    proof (cases "heap w s")
      case None
      then show ?thesis using run
        by (subst local_socket_close_notify.simps) (simp add: shrinks_halt)
    next
      case (Some so)
      define w1 where "w1 = modify s (\<lambda>so. so\<lparr>ready := Some local_socket_ready_fn,
        shutdown := None, close := Some local_socket_close_fn\<rparr>) w"
      define w2 where "w2 = SendFail (fd so) ''closed'' w1"
      have w2: "shrinks w w2"
        unfolding w2_def w1_def SendFail_def by (meson shrinks_trans shrinks_modify shrinks_emit)
      have eq: "local_socket_close_notify s w = asocket_close s w2"
        using run Some by (subst local_socket_close_notify.simps) (simp add: w2_def w1_def)
      have "shrinks w2 (asocket_close s w2)"
        using "3.IH" [OF _ Some w1_def w2_def] run by simp
      then show ?thesis
        unfolding eq using w2 shrinks_trans by blast
    qed
  qed
next
  case (4 s w)
  show ?case
  proof (cases "status w = Running")
    case False
    then show ?thesis by (subst remote_socket_close.simps) (simp add: shrinks_refl)
  next
    case run: True
    show ?thesis
    proof (cases "heap w s")
      case None
      then show ?thesis using run by (subst remote_socket_close.simps) (simp add: shrinks_halt)
    next
      case (Some so)
      show ?thesis
      proof (cases "peer so")
        case None
        then show ?thesis using run Some
          by (subst remote_socket_close.simps) (simp add: shrinks_free)
      next
        case (Some p)
        define w1 where "w1 = modify p (\<lambda>po. po\<lparr>peer := None\<rparr>) w"
        have w1: "shrinks w w1"
          unfolding w1_def by (rule shrinks_modify)
        show ?thesis
        proof (cases "peer_of s w1")
          case None
          have "remote_socket_close s w = halt Fault w1"
            using run \<open>heap w s = Some so\<close> Some None
            by (subst remote_socket_close.simps) (simp add: w1_def)
          then show ?thesis using w1 shrinks_halt shrinks_trans by metis
        next
          case (Some q)
          have eq: "remote_socket_close s w = free s (asocket_close q w1)"
            using run \<open>heap w s = Some so\<close> \<open>peer so = Some p\<close> Some
            by (subst remote_socket_close.simps) (simp add: w1_def)
          have "shrinks w1 (asocket_close q w1)"
            using "4.IH" [OF _ \<open>heap w s = Some so\<close> \<open>peer so = Some p\<close> w1_def] run Some
            by simp
          then show ?thesis
            unfolding eq by (meson shrinks_trans w1 shrinks_free)
        qed
      qed
    qed
  qed
next
  case (5 s w)
  show ?case
  proof (cases "status w = Running")
    case False
    then show ?thesis by (subst smart_socket_close.simps) (simp add: shrinks_refl)
  next
    case run: True
    show ?thesis
    proof (cases "heap w s")
      case None
      then show ?thesis using run by (subst smart_socket_close.simps) (simp add: shrinks_halt)
    next
      case (Some so)
      define w0 where
        "w0 = (case pkt_queue so of [] \<Rightarrow> w | pkt_first # rest \<Rightarrow> put_apacket pkt_first w)"
      have w0: "shrinks w w0"
        unfolding w0_def by (simp add: shrinks_refl shrinks_put_apacket split: list.splits)
      show ?thesis
      proof (cases "peer so")
        case None
        then have "smart_socket_close s w = free s w0"
          using run Some by (subst smart_socket_close.simps) (simp add: w0_def)
        then show ?thesis using w0 shrinks_free shrinks_trans by metis
      next
        case (Some p)
        define w1 where "w1 = modify p (\<lambda>po. po\<lparr>peer := None\<rparr>) w0"
        have w1: "shrinks w w1"
          unfolding w1_def using w0 shrinks_modify shrinks_trans by blast
        show ?thesis
        proof (cases "peer_of s w1")
          case None
          have "smart_socket_close s w = halt Fault w1"
            using run \<open>heap w s = Some so\<close> Some None
            by (subst smart_socket_close.simps) (simp add: w1_def w0_def)
          then show ?thesis using w1 shrinks_halt shrinks_trans by metis
        next
          case (Some q)
          have eq: "smart_socket_close s w =
              free s (modify s (\<lambda>so. so\<lparr>peer := None\<rparr>) (asocket_close q w1))"
            using run \<open>heap w s = Some so\<close> \<open>peer so = Some p\<close> Some
            by (subst smart_socket_close.simps) (simp add: w1_def w0_def)
          have "shrinks w1 (asocket_close q w1)"
            using "5.IH" [OF _ \<open>heap w s = Some so\<close> w0_def \<open>peer so = Some p\<close> w1_def] run Some
            by simp
          then show ?thesis
            unfolding eq by (meson shrinks_trans w1 shrinks_free shrinks_modify)
        qed
      qed
    qed
  qed
qed

lemma length_filter_mono:
  "(\<And>a. a \<in> set xs \<Longrightarrow> P a \<Longrightarrow> Q a) \<Longrightarrow> length (filter P xs) \<le> length (filter Q xs)"
  by (induction xs) auto

lemma count_less:
  assumes sub: "subseq xs ys"
    and imp: "\<And>a. a \<in> set xs \<Longrightarrow> P' a \<Longrightarrow> P a \<and> a \<noteq> s"
    and s: "s \<in> set ys" "P s"
  shows "length (filter P' xs) < length (filter P ys)"
proof -
  have "length (filter P' xs) \<le> length (filter (\<lambda>a. P a \<and> a \<noteq> s) xs)"
    using imp by (rule length_filter_mono)
  also have "\<dots> \<le> length (filter (\<lambda>a. P a \<and> a \<noteq> s) ys)"
    using sub by (intro list_emb_length [where P = "(=)"]) (simp add: subseq_filter)
  also have "\<dots> < length (filter P ys)"
  proof -
    have "s \<in> set (filter P ys)" using s by simp
    then have "length (filter (\<lambda>a. a \<noteq> s) (filter P ys)) < length (filter P ys)"
      by (rule length_filter_less) simp
    then show ?thesis by simp
  qed
  finally show ?thesis .
qed

text \<open>Once the process has stopped, nothing brings it back.\<close>

lemma status_modify: "status (modify s f w) = Running \<Longrightarrow> status w = Running"
  by (simp add: modify_def halt_def split: if_splits option.splits)

lemma status_free: "status (free s w) = status w"
  by (simp add: free_def)

lemma heap_free: "status w = Running \<Longrightarrow> heap (free s w) s = None"
  by (simp add: free_def)

lemma list_free: "local_socket_list (free s w) = local_socket_list w"
  by (simp add: free_def)

lemma local_socket_destroy_kills:
  "status (local_socket_destroy s w) = Running \<Longrightarrow> heap (local_socket_destroy s w) s = None"
  by (auto simp: local_socket_destroy_def Let_def exit_process_def halt_def free_def
      split: if_splits option.splits)

lemma remove_socket_unlinks:
  "status (remove_socket s w) = Running \<Longrightarrow> s \<notin> set (local_socket_list (remove_socket s w))"
  by (auto simp: remove_socket_def halt_def split: if_splits option.splits)

lemma local_socket_close_tail_kills:
  assumes "status (local_socket_close_tail s w) = Running"
  shows "s \<notin> set (local_socket_list (local_socket_close_tail s w)) \<or>
         heap (local_socket_close_tail s w) s = None"
proof (cases "status w = Running")
  case False
  then show ?thesis using assms by (simp add: local_socket_close_tail_def)
next
  case run: True
  show ?thesis
  proof (cases "heap w s")
    case None
    then show ?thesis using assms run by (simp add: local_socket_close_tail_def halt_def)
  next
    case (Some so)
    show ?thesis
    proof (cases "closing so \<or> has_write_error so \<or> pkt_queue so = []")
      case True
      then have "local_socket_close_tail s w = local_socket_destroy s w"
        using run Some by (simp add: local_socket_close_tail_def)
      then show ?thesis using assms local_socket_destroy_kills by simp
    next
      case False
      define w3 where "w3 = remove_socket s (fdevent_del s FDE_READ (modify s (\<lambda>so. so\<lparr>closing := True\<rparr>) w))"
      define w4 where "w4 = insert_local_socket s LOCAL_SOCKET_CLOSING_LIST w3"
      have eq: "local_socket_close_tail s w =
          (case heap w4 s of None \<Rightarrow> halt Fault w4
           | Some so4 \<Rightarrow> if fde_write so4 then w4 else halt Fatal w4)"
        unfolding w4_def w3_def using run Some False by (simp add: local_socket_close_tail_def Let_def)
      have r4: "status w4 = Running" and res: "local_socket_close_tail s w = w4"
        using assms unfolding eq by (auto simp: halt_def split: option.splits if_splits)
      have r3: "status w3 = Running"
        using r4 by (auto simp: w4_def insert_local_socket_def halt_def split: if_splits option.splits)
      have "s \<notin> set (local_socket_list w3)"
        using r3 unfolding w3_def by (rule remove_socket_unlinks)
      moreover have "local_socket_list w4 = local_socket_list w3"
        by (auto simp: w4_def insert_local_socket_def halt_def split: if_splits option.splits)
      ultimately show ?thesis using res by simp
    qed
  qed
qed

lemma close_kills:
  shows "status (asocket_close s w) = Running \<Longrightarrow>
         s \<notin> set (local_socket_list (asocket_close s w)) \<or> heap (asocket_close s w) s = None"
    and "status (local_socket_close s w) = Running \<Longrightarrow>
         s \<notin> set (local_socket_list (local_socket_close s w)) \<or> heap (local_socket_close s w) s = None"
    and "status (local_socket_close_notify s w) = Running \<Longrightarrow>
         s \<notin> set (local_socket_list (local_socket_close_notify s w)) \<or>
         heap (local_socket_close_notify s w) s = None"
    and "status (remote_socket_close s w) = Running \<Longrightarrow>
         s \<notin> set (local_socket_list (remote_socket_close s w)) \<or> heap (remote_socket_close s w) s = None"
    and "status (smart_socket_close s w) = Running \<Longrightarrow>
         s \<notin> set (local_socket_list (smart_socket_close s w)) \<or> heap (smart_socket_close s w) s = None"
proof (induction s w and s w and s w and s w and s w rule: close_induct)
  case (1 s w)
  from "1.prems" have run: "status w = Running"
    by (subst (asm) asocket_close.simps) (auto split: if_splits)
  from "1.prems" run obtain so fn where so: "heap w s = Some so" "close so = Some fn"
    by (subst (asm) asocket_close.simps) (auto simp: halt_def split: option.splits)
  show ?case
  proof (cases fn)
    case local_socket_close_fn
    then have eq: "asocket_close s w = local_socket_close s w"
      using run so by (subst asocket_close.simps) simp
    show ?thesis
      using "1.IH"(1) [OF _ so local_socket_close_fn] "1.prems" run unfolding eq by simp
  next
    case local_socket_close_notify_fn
    then have eq: "asocket_close s w = local_socket_close_notify s w"
      using run so by (subst asocket_close.simps) simp
    show ?thesis
      using "1.IH"(2) [OF _ so local_socket_close_notify_fn] "1.prems" run unfolding eq by simp
  next
    case remote_socket_close_fn
    then have eq: "asocket_close s w = remote_socket_close s w"
      using run so by (subst asocket_close.simps) simp
    show ?thesis
      using "1.IH"(3) [OF _ so remote_socket_close_fn] "1.prems" run unfolding eq by simp
  next
    case smart_socket_close_fn
    then have eq: "asocket_close s w = smart_socket_close s w"
      using run so by (subst asocket_close.simps) simp
    show ?thesis
      using "1.IH"(4) [OF _ so smart_socket_close_fn] "1.prems" run unfolding eq by simp
  qed
next
  case (2 s w)
  have "\<exists>w'. local_socket_close s w = local_socket_close_tail s w'"
    using "2.prems"
    by (subst (asm) local_socket_close.simps, subst local_socket_close.simps)
      (auto simp: halt_def Let_def split: if_splits option.splits)
  then show ?case using "2.prems" local_socket_close_tail_kills by auto
next
  case (3 s w)
  from "3.prems" have run: "status w = Running"
    by (subst (asm) local_socket_close_notify.simps) (auto split: if_splits)
  from "3.prems" run obtain so where so: "heap w s = Some so"
    by (subst (asm) local_socket_close_notify.simps) (auto simp: halt_def split: option.splits)
  define w1 where "w1 = modify s (\<lambda>so. so\<lparr>ready := Some local_socket_ready_fn,
        shutdown := None, close := Some local_socket_close_fn\<rparr>) w"
  define w2 where "w2 = SendFail (fd so) ''closed'' w1"
  have eq: "local_socket_close_notify s w = asocket_close s w2"
    using run so by (subst local_socket_close_notify.simps) (simp add: w2_def w1_def)
  show ?case
    using "3.IH" [OF _ so w1_def w2_def] "3.prems" run unfolding eq by simp
next
  case (4 s w)
  have "\<exists>w'. remote_socket_close s w = free s w' \<and> status w' = Running"
    using "4.prems"
    by (subst (asm) remote_socket_close.simps, subst remote_socket_close.simps)
      (auto simp: halt_def Let_def status_free split: if_splits option.splits)
  then show ?case using heap_free by auto
next
  case (5 s w)
  have "\<exists>w'. smart_socket_close s w = free s w' \<and> status w' = Running"
    using "5.prems"
    by (subst (asm) smart_socket_close.simps, subst smart_socket_close.simps)
      (auto simp: halt_def Let_def status_free split: if_splits option.splits)
  then show ?case using heap_free by auto
qed

lemma close_all_sockets_scan_Some:
  "close_all_sockets_scan t xs w = (Some s, w') \<Longrightarrow> w' = w \<and> s \<in> set xs \<and> heap w s \<noteq> None"
  by (induction xs) (auto split: option.splits if_splits)

lemma live_members_asocket_close:
  assumes "status w = Running" and "s \<in> set (local_socket_list w)" and "heap w s \<noteq> None"
  shows "live_members (asocket_close s w) < live_members w"
proof (cases "status (asocket_close s w) = Running")
  case False
  then show ?thesis using assms by (simp add: live_members_def)
next
  case True
  let ?w' = "asocket_close s w"
  have sh: "shrinks w ?w'" by (rule shrinks_close)
  have k: "s \<notin> set (local_socket_list ?w') \<or> heap ?w' s = None"
    using True by (rule close_kills)
  have "length (filter (\<lambda>a. heap ?w' a \<noteq> None) (local_socket_list ?w'))
      < length (filter (\<lambda>a. heap w a \<noteq> None) (local_socket_list w))"
  proof (rule count_less [where s = s])
    show "subseq (local_socket_list ?w') (local_socket_list w)"
      using sh by (simp add: shrinks_def)
    show "heap w a \<noteq> None \<and> a \<noteq> s"
      if "a \<in> set (local_socket_list ?w')" "heap ?w' a \<noteq> None" for a
      using that sh k by (auto simp: shrinks_def)
    show "s \<in> set (local_socket_list w)" by fact
    show "heap w s \<noteq> None" by fact
  qed
  then show ?thesis using True assms by (simp add: live_members_def)
qed

text \<open>
  \<^verbatim>\<open>close_all_sockets\<close>: after each close the scan starts again from the head of the
  list (\<^verbatim>\<open>goto restart\<close>).
\<close>

function close_all_sockets :: "atransport option \<Rightarrow> world \<Rightarrow> world" where
  "close_all_sockets t w =
     (if status w \<noteq> Running then w
      else case close_all_sockets_scan t (local_socket_list w) w of
             (None, w') \<Rightarrow> w'
           | (Some s, w') \<Rightarrow> close_all_sockets t (asocket_close s w'))"
  by pat_completeness auto
termination
proof (relation "measure (\<lambda>(t, w). live_members w)", goal_cases)
  case 1
  show ?case by simp
next
  case (2 t w found w' s)
  then have scan: "close_all_sockets_scan t (local_socket_list w) w = (Some s, w')"
    by simp
  have "w' = w" "s \<in> set (local_socket_list w)" "heap w s \<noteq> None"
    using close_all_sockets_scan_Some [OF scan] by simp_all
  then show ?case
    using 2 live_members_asocket_close by simp
qed

declare close_all_sockets.simps [simp del]

section \<open>Example states\<close>

text \<open>A packet that carries the bytes \<open>bs\<close>.\<close>

definition packet_of :: "string \<Rightarrow> apacket" where
  "packet_of bs = \<lparr>msg = zero_msg, len = length bs, ptr = 0, data = bs\<rparr>"

text \<open>
  A local endpoint (id 1, descriptor 5) as \<^verbatim>\<open>create_local_socket\<close> leaves it, a remote
  endpoint (id 7 on transport 3) as \<^verbatim>\<open>create_remote_socket\<close> leaves it, and a smart
  endpoint as \<^verbatim>\<open>create_smart_socket\<close> leaves it.
\<close>

definition example_local :: asocket where
  "example_local =
     calloc_asocket\<lparr>id_field := 1, fd := 5, enqueue := Some local_socket_enqueue_fn,
                    ready := Some local_socket_ready_fn, shutdown := None,
                    close := Some local_socket_close_fn\<rparr>"

definition example_remote :: asocket where
  "example_remote =
     calloc_asocket\<lparr>id_field := 7, enqueue := Some remote_socket_enqueue_fn,
                    ready := Some remote_socket_ready_fn,
                    shutdown := Some remote_socket_shutdown_fn,
                    close := Some remote_socket_close_fn, transport := Some 3\<rparr>"

definition example_smart :: asocket where
  "example_smart =
     calloc_asocket\<lparr>enqueue := Some smart_socket_enqueue_fn, ready := Some smart_socket_ready_fn,
                    shutdown := None, close := Some smart_socket_close_fn\<rparr>"

text \<open>The local endpoint at address 10 paired with the remote endpoint at address 20.\<close>

definition world_local_remote :: world where
  "world_local_remote =
     \<lparr>heap = [10 \<mapsto> example_local\<lparr>peer := Some 20\<rparr>, 20 \<mapsto> example_remote\<lparr>peer := Some 10\<rparr>],
      local_socket_list = [10], local_socket_closing_list = [],
      local_socket_next_id = 2, next_addr = 21, writes_done = 0, trace = [], status = Running\<rparr>"

text \<open>The local endpoint at address 10 paired with the smart endpoint at address 11.\<close>

definition world_local_smart :: world where
  "world_local_smart =
     \<lparr>heap = [10 \<mapsto> example_local\<lparr>peer := Some 11\<rparr>, 11 \<mapsto> example_smart\<lparr>peer := Some 10\<rparr>],
      local_socket_list = [10], local_socket_closing_list = [],
      local_socket_next_id = 2, next_addr = 12, writes_done = 0, trace = [], status = Running\<rparr>"

section \<open>Remote endpoints\<close>

text \<open>
  C6. For a remote endpoint \<open>s\<close> with a live peer \<open>q\<close>: \<^verbatim>\<open>remote_socket_enqueue\<close> stamps
  the packet as WRTE with \<open>arg0\<close> the peer's id, \<open>arg1\<close> its own id and \<open>data_length\<close> the
  packet length, hands it to \<^verbatim>\<open>send_packet\<close> on its transport and returns 1;
  \<^verbatim>\<open>remote_socket_ready\<close> sends an OKAY packet and \<^verbatim>\<open>remote_socket_shutdown\<close> a CLSE
  packet, both with \<open>arg0\<close> the peer's id and \<open>arg1\<close> its own id. Nothing else changes.
\<close>

theorem remote_socket_packets:
  assumes "status w = Running" and "heap w s = Some so" and "peer so = Some q"
    and "heap w q = Some qo"
  shows "remote_socket_enqueue s p w =
           (1, w\<lparr>trace := trace w @
                 [E_SendPacket (transport so)
                    (p\<lparr>msg := \<lparr>command = A_WRTE, arg0 = id_field qo, arg1 = id_field so,
                               data_length = of_nat (len p)\<rparr>\<rparr>)]\<rparr>) \<and>
         remote_socket_ready s w =
           w\<lparr>trace := trace w @
               [E_SendPacket (transport so)
                  (get_apacket\<lparr>msg := (msg get_apacket)
                     \<lparr>command := A_OKAY, arg0 := id_field qo, arg1 := id_field so\<rparr>\<rparr>)]\<rparr> \<and>
         remote_socket_shutdown s w =
           w\<lparr>trace := trace w @
               [E_SendPacket (transport so)
                  (get_apacket\<lparr>msg := (msg get_apacket)
                     \<lparr>command := A_CLSE, arg0 := id_field qo, arg1 := id_field so\<rparr>\<rparr>)]\<rparr>"
  using assms
  by (simp add: remote_socket_enqueue_def remote_socket_ready_def remote_socket_shutdown_def
      send_packet_def emit_def Let_def)

theorem remote_socket_packets_witness:
  "status world_local_remote = Running \<and>
   heap world_local_remote 20 = Some (example_remote\<lparr>peer := Some 10\<rparr>) \<and>
   peer (example_remote\<lparr>peer := Some 10\<rparr>) = Some 10 \<and>
   heap world_local_remote 10 = Some (example_local\<lparr>peer := Some 20\<rparr>) \<and>
   remote_socket_enqueue 20 (packet_of ''abc'') world_local_remote =
     (1, world_local_remote\<lparr>trace :=
           [E_SendPacket (Some 3)
              \<lparr>msg = \<lparr>command = A_WRTE, arg0 = 1, arg1 = 7, data_length = 3\<rparr>,
               len = 3, ptr = 0, data = ''abc''\<rparr>]\<rparr>) \<and>
   remote_socket_ready 20 world_local_remote =
     world_local_remote\<lparr>trace :=
       [E_SendPacket (Some 3)
          \<lparr>msg = \<lparr>command = A_OKAY, arg0 = 1, arg1 = 7, data_length = 0\<rparr>,
           len = 0, ptr = 0, data = []\<rparr>]\<rparr> \<and>
   remote_socket_shutdown 20 world_local_remote =
     world_local_remote\<lparr>trace :=
       [E_SendPacket (Some 3)
          \<lparr>msg = \<lparr>command = A_CLSE, arg0 = 1, arg1 = 7, data_length = 0\<rparr>,
           len = 0, ptr = 0, data = []\<rparr>]\<rparr>"
proof -
  have h: "status world_local_remote = Running"
    "heap world_local_remote 20 = Some (example_remote\<lparr>peer := Some 10\<rparr>)"
    "peer (example_remote\<lparr>peer := Some 10\<rparr>) = Some 10"
    "heap world_local_remote 10 = Some (example_local\<lparr>peer := Some 20\<rparr>)"
    by (simp_all add: world_local_remote_def)
  show ?thesis
    using h remote_socket_packets [OF h, of "packet_of ''abc''"]
    by (simp add: world_local_remote_def example_local_def example_remote_def calloc_asocket_def
        packet_of_def get_apacket_def zero_msg_def)
qed

section \<open>What closing a local endpoint does\<close>

lemma fold_put_apacket:
  "fold put_apacket ps w =
     (if status w = Running then w\<lparr>trace := trace w @ map E_PutApacket ps\<rparr> else w)"
proof (induction ps arbitrary: w)
  case Nil
  show ?case by simp
next
  case (Cons p ps)
  have "fold put_apacket (p # ps) w = fold put_apacket ps (put_apacket p w)"
    by simp
  also have "\<dots> = (if status (put_apacket p w) = Running
      then (put_apacket p w)\<lparr>trace := trace (put_apacket p w) @ map E_PutApacket ps\<rparr>
      else put_apacket p w)"
    by (rule Cons.IH)
  also have "\<dots> = (if status w = Running
      then w\<lparr>trace := trace w @ map E_PutApacket (p # ps)\<rparr> else w)"
    by (simp add: put_apacket_def emit_def)
  finally show ?case .
qed

text \<open>The primitive steps on a live socket of a running process.\<close>

lemma modify_live:
  "status w = Running \<Longrightarrow> heap w s = Some so \<Longrightarrow>
   modify s f w = w\<lparr>heap := (heap w)(s \<mapsto> f so)\<rparr>"
  by (simp add: modify_def)

lemma remove_socket_live:
  assumes "status w = Running" and "heap w s = Some so"
  shows "remove_socket s w =
           w\<lparr>heap := (heap w)(s \<mapsto> so\<lparr>id_field :=
                 (if s \<in> set (local_socket_list w) \<or> s \<in> set (local_socket_closing_list w)
                  then 0 else id_field so)\<rparr>),
             local_socket_list := removeAll s (local_socket_list w),
             local_socket_closing_list := removeAll s (local_socket_closing_list w)\<rparr>"
proof (cases "s \<in> set (local_socket_list w) \<or> s \<in> set (local_socket_closing_list w)")
  case True
  then show ?thesis using assms by (simp add: remove_socket_def)
next
  case False
  have "(heap w)(s \<mapsto> so) = heap w"
    using assms(2) by (rule map_upd_triv)
  then show ?thesis using assms False by (simp add: remove_socket_def)
qed

lemma insert_local_socket_live:
  "status w = Running \<Longrightarrow> heap w s = Some so \<Longrightarrow>
   insert_local_socket s LOCAL_SOCKET_CLOSING_LIST w =
     w\<lparr>local_socket_closing_list := local_socket_closing_list w @ [s]\<rparr>"
  by (simp add: insert_local_socket_def)

text \<open>
  \<^verbatim>\<open>local_socket_destroy\<close> on a live socket: the watcher is removed, the queued packets
  are given back, the socket is unlinked and freed, and the process exits when
  \<open>exit_on_close\<close> is set.
\<close>

lemma local_socket_destroy_live:
  assumes "status w = Running" and "heap w s = Some so"
  shows "local_socket_destroy s w =
           w\<lparr>heap := (heap w)(s := None),
             local_socket_list := removeAll s (local_socket_list w),
             local_socket_closing_list := removeAll s (local_socket_closing_list w),
             trace := trace w @ E_FdeventRemove (fd so) # map E_PutApacket (pkt_queue so),
             status := (if exit_on_close so then Exited else Running)\<rparr>"
  using assms
  by (simp add: local_socket_destroy_def fdevent_remove_def fold_put_apacket emit_def
      remove_socket_def free_def exit_process_def halt_def Let_def)

text \<open>
  The deferred close: the socket is marked closing, stops reading, loses its id when it
  was linked, and moves to the tail of the closing list; the \<^verbatim>\<open>CHECK_EQ\<close> aborts the
  process when write-readiness is not armed.
\<close>

lemma local_socket_close_tail_deferred:
  assumes run: "status w = Running" and so: "heap w s = Some so"
    and "\<not> closing so" and "\<not> has_write_error so" and "pkt_queue so \<noteq> []"
  shows "local_socket_close_tail s w =
           w\<lparr>heap := (heap w)(s \<mapsto> so\<lparr>closing := True, fde_read := False,
                 id_field := (if s \<in> set (local_socket_list w) \<or>
                                  s \<in> set (local_socket_closing_list w)
                              then 0 else id_field so)\<rparr>),
             local_socket_list := removeAll s (local_socket_list w),
             local_socket_closing_list := removeAll s (local_socket_closing_list w) @ [s],
             status := (if fde_write so then Running else Fatal)\<rparr>"
proof -
  define w1 where "w1 = modify s (\<lambda>so. so\<lparr>closing := True\<rparr>) w"
  define w2 where "w2 = fdevent_del s FDE_READ w1"
  define w3 where "w3 = remove_socket s w2"
  define w4 where "w4 = insert_local_socket s LOCAL_SOCKET_CLOSING_LIST w3"
  define so3 where "so3 = so\<lparr>closing := True, fde_read := False,
     id_field := (if s \<in> set (local_socket_list w) \<or> s \<in> set (local_socket_closing_list w)
                  then 0 else id_field so)\<rparr>"
  have w1: "w1 = w\<lparr>heap := (heap w)(s \<mapsto> so\<lparr>closing := True\<rparr>)\<rparr>"
    unfolding w1_def using run so by (rule modify_live)
  have w2: "w2 = w\<lparr>heap := (heap w)(s \<mapsto> so\<lparr>closing := True, fde_read := False\<rparr>)\<rparr>"
    unfolding w2_def fdevent_del_def by (simp add: w1 modify_def run)
  have w3: "w3 = w\<lparr>heap := (heap w)(s \<mapsto> so3),
             local_socket_list := removeAll s (local_socket_list w),
             local_socket_closing_list := removeAll s (local_socket_closing_list w)\<rparr>"
    unfolding w3_def
    by (subst remove_socket_live [where so = "so\<lparr>closing := True, fde_read := False\<rparr>"])
      (simp_all add: w2 run so3_def)
  have w4: "w4 = w\<lparr>heap := (heap w)(s \<mapsto> so3),
             local_socket_list := removeAll s (local_socket_list w),
             local_socket_closing_list := removeAll s (local_socket_closing_list w) @ [s]\<rparr>"
    unfolding w4_def
    by (subst insert_local_socket_live [where so = so3]) (simp_all add: w3 run)
  have "local_socket_close_tail s w =
      (case heap w4 s of None \<Rightarrow> halt Fault w4
       | Some so4 \<Rightarrow> if fde_write so4 then w4 else halt Fatal w4)"
    unfolding w4_def w3_def w2_def w1_def using assms
    by (simp add: local_socket_close_tail_def Let_def)
  also have "\<dots> = (if fde_write so then w4 else halt Fatal w4)"
    by (simp add: w4 so3_def)
  also have "\<dots> = w4\<lparr>status := (if fde_write so then Running else Fatal)\<rparr>"
    by (simp add: w4 halt_def run [symmetric])
  finally show ?thesis
    by (simp add: w4 so3_def)
qed

lemma local_socket_close_tail_destroys:
  assumes "status w = Running" and "heap w s = Some so"
    and "closing so \<or> has_write_error so \<or> pkt_queue so = []"
  shows "local_socket_close_tail s w = local_socket_destroy s w"
  using assms by (simp add: local_socket_close_tail_def)

text \<open>
  The close of a socket whose peer link is clear makes no further call through a
  \<^verbatim>\<open>close\<close> pointer.
\<close>

lemma asocket_close_unpeered:
  assumes run: "status w = Running" and po: "heap w p = Some po" and np: "peer po = None"
  shows "asocket_close p w =
     (case close po of
        None \<Rightarrow> halt Fault w
      | Some local_socket_close_fn \<Rightarrow> local_socket_close_tail p w
      | Some local_socket_close_notify_fn \<Rightarrow>
          local_socket_close_tail p
            (SendFail (fd po) ''closed''
               (modify p (\<lambda>so. so\<lparr>ready := Some local_socket_ready_fn, shutdown := None,
                                     close := Some local_socket_close_fn\<rparr>) w))
      | Some remote_socket_close_fn \<Rightarrow> free p w
      | Some smart_socket_close_fn \<Rightarrow>
          free p (case pkt_queue po of [] \<Rightarrow> w | pkt_first # rest \<Rightarrow> put_apacket pkt_first w))"
proof (cases "close po")
  case None
  then show ?thesis using run po by (subst asocket_close.simps) simp
next
  case (Some fn)
  show ?thesis
  proof (cases fn)
    case local_socket_close_fn
    then show ?thesis using run po np Some
      by (subst asocket_close.simps, subst local_socket_close.simps) simp
  next
    case local_socket_close_notify_fn
    define po' where "po' = po\<lparr>ready := Some local_socket_ready_fn, shutdown := None,
                                     close := Some local_socket_close_fn\<rparr>"
    define w2 where "w2 = SendFail (fd po) ''closed''
               (modify p (\<lambda>so. so\<lparr>ready := Some local_socket_ready_fn, shutdown := None,
                                     close := Some local_socket_close_fn\<rparr>) w)"
    have w2: "status w2 = Running" "heap w2 p = Some po'"
      using run po by (simp_all add: w2_def po'_def SendFail_def emit_def modify_def)
    have "asocket_close p w = asocket_close p w2"
      using run po Some local_socket_close_notify_fn
      by (subst asocket_close.simps, subst local_socket_close_notify.simps) (simp add: w2_def)
    also have "\<dots> = local_socket_close_tail p w2"
      using w2 np
      by (subst asocket_close.simps, subst local_socket_close.simps) (simp add: po'_def)
    finally show ?thesis
      using Some local_socket_close_notify_fn by (simp add: w2_def)
  next
    case remote_socket_close_fn
    then show ?thesis using run po np Some
      by (subst asocket_close.simps, subst remote_socket_close.simps) simp
  next
    case smart_socket_close_fn
    then show ?thesis using run po np Some
      by (subst asocket_close.simps, subst smart_socket_close.simps) simp
  qed
qed

text \<open>A step that leaves every socket but \<open>p\<close> as it was, in the store and in the lists.\<close>

definition only_touches :: "addr \<Rightarrow> world \<Rightarrow> world \<Rightarrow> bool" where
  "only_touches p w w' \<longleftrightarrow>
     (\<forall>a. a \<noteq> p \<longrightarrow>
        heap w' a = heap w a \<and>
        (a \<in> set (local_socket_list w') \<longleftrightarrow> a \<in> set (local_socket_list w)) \<and>
        (a \<in> set (local_socket_closing_list w') \<longleftrightarrow> a \<in> set (local_socket_closing_list w)))"

lemma only_touches_refl: "only_touches p w w"
  by (simp add: only_touches_def)

lemma only_touches_trans: "only_touches p w w1 \<Longrightarrow> only_touches p w1 w2 \<Longrightarrow> only_touches p w w2"
  by (simp add: only_touches_def)

lemma only_touches_halt: "only_touches p w (halt st w)"
  by (simp add: only_touches_def halt_def)

lemma only_touches_emit: "only_touches p w (emit e w)"
  by (simp add: only_touches_def emit_def)

lemma only_touches_modify: "only_touches p w (modify p f w)"
  by (simp add: only_touches_def modify_def halt_def split: option.splits)

lemma only_touches_free: "only_touches p w (free p w)"
  by (simp add: only_touches_def free_def)

lemma only_touches_local_socket_close_tail: "only_touches p w (local_socket_close_tail p w)"
proof (cases "status w = Running")
  case False
  then show ?thesis by (simp add: local_socket_close_tail_def only_touches_refl)
next
  case run: True
  show ?thesis
  proof (cases "heap w p")
    case None
    then show ?thesis using run by (simp add: local_socket_close_tail_def only_touches_halt)
  next
    case (Some po)
    show ?thesis
    proof (cases "closing po \<or> has_write_error po \<or> pkt_queue po = []")
      case True
      then have "local_socket_close_tail p w = local_socket_destroy p w"
        using run Some by (simp add: local_socket_close_tail_def)
      then show ?thesis
        using local_socket_destroy_live [OF run Some] by (simp add: only_touches_def)
    next
      case False
      then show ?thesis
        using local_socket_close_tail_deferred [OF run Some] by (simp add: only_touches_def)
    qed
  qed
qed

lemma only_touches_asocket_close:
  assumes "heap w p = Some po" and "peer po = None"
  shows "only_touches p w (asocket_close p w)"
proof (cases "status w = Running")
  case False
  then show ?thesis by (subst asocket_close.simps) (simp add: only_touches_refl)
next
  case run: True
  have notify: "only_touches p w (local_socket_close_tail p (SendFail fd' reason (modify p f w)))"
    for fd' reason f
    unfolding SendFail_def
    by (meson only_touches_trans only_touches_modify only_touches_emit
        only_touches_local_socket_close_tail)
  have smart: "only_touches p w (free p (case ps of [] \<Rightarrow> w | x # rest \<Rightarrow> put_apacket x w))"
    for ps
    by (cases ps) (auto simp: put_apacket_def intro: only_touches_free
        only_touches_trans [OF only_touches_emit only_touches_free])
  show ?thesis
    unfolding asocket_close_unpeered [OF run assms]
    by (simp add: only_touches_halt only_touches_local_socket_close_tail only_touches_free
        notify smart split: option.splits close_fn.splits)
qed

lemma status_local_socket_close_tail:
  "status (local_socket_close_tail s w) = Running \<Longrightarrow> status w = Running"
  by (cases "status w = Running") (simp_all add: local_socket_close_tail_def)

lemma heap_unlink_other:
  "p \<noteq> s \<Longrightarrow> heap (modify p f (asocket_shutdown p w)) s = heap w s"
  by (simp add: modify_def halt_def heap_asocket_shutdown split: option.splits)

text \<open>The order of the steps of \<^verbatim>\<open>local_socket_close\<close> on a socket with a peer.\<close>

lemma local_socket_close_steps:
  assumes run: "status w = Running" and so: "heap w s = Some so"
    and p: "peer so = Some p" and ne: "p \<noteq> s"
  shows "local_socket_close s w =
           local_socket_close_tail s
             (modify s (\<lambda>so. so\<lparr>peer := None\<rparr>)
                (asocket_close p
                   (modify p (\<lambda>po. po\<lparr>peer := None\<rparr>) (asocket_shutdown p w))))"
proof -
  have "peer_of s (modify p (\<lambda>po. po\<lparr>peer := None\<rparr>) (asocket_shutdown p w)) = Some p"
    using so p heap_unlink_other [OF ne] by (simp add: peer_of_def)
  then show ?thesis
    using run so p by (subst local_socket_close.simps) simp
qed

text \<open>The socket \<open>s\<close> is still what it was after its peer \<open>p\<close> has been closed.\<close>

lemma peer_closed_frame:
  fixes w :: world
  assumes ne: "p \<noteq> s"
  defines "w3 \<equiv> asocket_close p (modify p (\<lambda>po. po\<lparr>peer := None\<rparr>) (asocket_shutdown p w))"
  shows "heap w3 s = heap w s"
    and "s \<in> set (local_socket_list w3) \<longleftrightarrow> s \<in> set (local_socket_list w)"
    and "s \<in> set (local_socket_closing_list w3) \<longleftrightarrow> s \<in> set (local_socket_closing_list w)"
proof -
  define w1 where "w1 = asocket_shutdown p w"
  define w2 where "w2 = modify p (\<lambda>po. po\<lparr>peer := None\<rparr>) w1"
  have l1: "local_socket_list w1 = local_socket_list w"
    "local_socket_closing_list w1 = local_socket_closing_list w" "heap w1 = heap w"
    by (simp_all add: w1_def asocket_shutdown_def remote_socket_shutdown_def send_packet_def
        emit_def halt_def Let_def split: option.splits shutdown_fn.splits)
  have t12: "only_touches p w1 w2"
    unfolding w2_def by (rule only_touches_modify)
  have t23: "only_touches p w2 (asocket_close p w2)"
  proof (cases "status w2 = Running")
    case False
    then show ?thesis by (subst asocket_close.simps) (simp add: only_touches_refl)
  next
    case True
    then obtain po where "heap w1 p = Some po" "status w1 = Running"
      by (auto simp: w2_def modify_def halt_def split: if_splits option.splits)
    then have "heap w2 p = Some (po\<lparr>peer := None\<rparr>)"
      by (simp add: w2_def modify_def)
    then show ?thesis by (rule only_touches_asocket_close) simp
  qed
  have "only_touches p w1 w3"
    using only_touches_trans [OF t12 t23] by (simp add: w3_def w2_def w1_def)
  then show "heap w3 s = heap w s"
    and "s \<in> set (local_socket_list w3) \<longleftrightarrow> s \<in> set (local_socket_list w)"
    and "s \<in> set (local_socket_closing_list w3) \<longleftrightarrow> s \<in> set (local_socket_closing_list w)"
    using ne l1 by (simp_all add: only_touches_def)
qed

text \<open>The outcome of the second half of \<^verbatim>\<open>local_socket_close\<close>.\<close>

lemma local_socket_close_tail_outcome:
  assumes so: "heap w s = Some so"
    and fin: "status (local_socket_close_tail s w) = Running"
  defines "w' \<equiv> local_socket_close_tail s w"
  shows "closing so \<or> has_write_error so \<or> pkt_queue so = [] \<Longrightarrow>
           heap w' s = None \<and> s \<notin> set (local_socket_list w') \<and>
           s \<notin> set (local_socket_closing_list w')"
    and "\<not> (closing so \<or> has_write_error so \<or> pkt_queue so = []) \<Longrightarrow>
           heap w' s = Some (so\<lparr>closing := True, fde_read := False,
                                id_field := (if s \<in> set (local_socket_list w) \<or>
                                                 s \<in> set (local_socket_closing_list w)
                                             then 0 else id_field so)\<rparr>) \<and>
           fde_write so \<and> s \<notin> set (local_socket_list w') \<and>
           s \<in> set (local_socket_closing_list w')"
proof -
  have run: "status w = Running"
    using fin by (rule status_local_socket_close_tail)
  show "heap w' s = None \<and> s \<notin> set (local_socket_list w') \<and>
        s \<notin> set (local_socket_closing_list w')"
    if "closing so \<or> has_write_error so \<or> pkt_queue so = []"
    unfolding w'_def local_socket_close_tail_destroys [OF run so that]
      local_socket_destroy_live [OF run so]
    by simp
  show "heap w' s = Some (so\<lparr>closing := True, fde_read := False,
                                id_field := (if s \<in> set (local_socket_list w) \<or>
                                                 s \<in> set (local_socket_closing_list w)
                                             then 0 else id_field so)\<rparr>) \<and>
           fde_write so \<and> s \<notin> set (local_socket_list w') \<and>
           s \<in> set (local_socket_closing_list w')"
    if d: "\<not> (closing so \<or> has_write_error so \<or> pkt_queue so = [])"
  proof -
    have eq: "local_socket_close_tail s w =
           w\<lparr>heap := (heap w)(s \<mapsto> so\<lparr>closing := True, fde_read := False,
                 id_field := (if s \<in> set (local_socket_list w) \<or>
                                  s \<in> set (local_socket_closing_list w)
                              then 0 else id_field so)\<rparr>),
             local_socket_list := removeAll s (local_socket_list w),
             local_socket_closing_list := removeAll s (local_socket_closing_list w) @ [s],
             status := (if fde_write so then Running else Fatal)\<rparr>"
      using d by (intro local_socket_close_tail_deferred [OF run so]) simp_all
    have "fde_write so"
      using fin unfolding eq by (simp split: if_splits)
    then show ?thesis
      unfolding w'_def eq by simp
  qed
qed

text \<open>
  The local endpoint at address 10, with one packet queued and write-readiness armed,
  paired with the remote endpoint at address 20.
\<close>

definition example_draining :: asocket where
  "example_draining =
     example_local\<lparr>peer := Some 20, fde_read := True, fde_write := True,
                   pkt_queue := [packet_of ''xyz'']\<rparr>"

definition world_draining :: world where
  "world_draining =
     \<lparr>heap = [10 \<mapsto> example_draining, 20 \<mapsto> example_remote\<lparr>peer := Some 10\<rparr>],
      local_socket_list = [10], local_socket_closing_list = [],
      local_socket_next_id = 2, next_addr = 21, writes_done = 0, trace = [], status = Running\<rparr>"

text \<open>
  C4. \<^verbatim>\<open>local_socket_close\<close> on a live local endpoint \<open>s\<close> (whose peer is not \<open>s\<close>
  itself), when the call returns: with a peer \<open>p\<close> it runs, in this order, the peer's
  shutdown on the state in which the peer still points back, the clearing of the peer's
  link, the peer's close, and the clearing of its own link. Then the endpoint is
  destroyed at once exactly when it was already closing, or had a write error, or its
  queue was empty; otherwise it is marked closing, read-readiness is disarmed, it leaves
  the main list for the closing list, and write-readiness is armed.
\<close>

theorem local_socket_close_effect:
  assumes run: "status w = Running" and so: "heap w s = Some so" and ne: "peer so \<noteq> Some s"
    and fin: "status (local_socket_close s w) = Running"
  shows "(peer so = None \<longrightarrow> local_socket_close s w = local_socket_close_tail s w) \<and>
         (\<forall>p. peer so = Some p \<longrightarrow>
            local_socket_close s w =
              local_socket_close_tail s
                (modify s (\<lambda>so. so\<lparr>peer := None\<rparr>)
                   (asocket_close p
                      (modify p (\<lambda>po. po\<lparr>peer := None\<rparr>) (asocket_shutdown p w))))) \<and>
         (closing so \<or> has_write_error so \<or> pkt_queue so = [] \<longrightarrow>
            heap (local_socket_close s w) s = None \<and>
            s \<notin> set (local_socket_list (local_socket_close s w)) \<and>
            s \<notin> set (local_socket_closing_list (local_socket_close s w))) \<and>
         (\<not> (closing so \<or> has_write_error so \<or> pkt_queue so = []) \<longrightarrow>
            heap (local_socket_close s w) s =
              Some (so\<lparr>peer := None, closing := True, fde_read := False,
                       id_field := (if s \<in> set (local_socket_list w) \<or>
                                        s \<in> set (local_socket_closing_list w)
                                    then 0 else id_field so)\<rparr>) \<and>
            fde_write so \<and>
            s \<notin> set (local_socket_list (local_socket_close s w)) \<and>
            s \<in> set (local_socket_closing_list (local_socket_close s w)))"
proof -
  have unpeered: "local_socket_close s w = local_socket_close_tail s w" if "peer so = None"
    using run so that by (subst local_socket_close.simps) simp
  have peered: "local_socket_close s w =
      local_socket_close_tail s
        (modify s (\<lambda>so. so\<lparr>peer := None\<rparr>)
           (asocket_close p (modify p (\<lambda>po. po\<lparr>peer := None\<rparr>) (asocket_shutdown p w))))"
    if "peer so = Some p" for p
    using run so that ne by (intro local_socket_close_steps) auto
  obtain w4 where eq: "local_socket_close s w = local_socket_close_tail s w4"
    and so4: "heap w4 s = Some (so\<lparr>peer := None\<rparr>)"
    and l4: "s \<in> set (local_socket_list w4) \<longleftrightarrow> s \<in> set (local_socket_list w)"
      "s \<in> set (local_socket_closing_list w4) \<longleftrightarrow> s \<in> set (local_socket_closing_list w)"
  proof (cases "peer so")
    case None
    then have "so\<lparr>peer := None\<rparr> = so" by simp
    then show ?thesis using that [of w] unpeered [OF None] so by simp
  next
    case (Some p)
    define w3 where "w3 = asocket_close p (modify p (\<lambda>po. po\<lparr>peer := None\<rparr>) (asocket_shutdown p w))"
    define w4 where "w4 = modify s (\<lambda>so. so\<lparr>peer := None\<rparr>) w3"
    have pne: "p \<noteq> s" using Some ne by auto
    have eq: "local_socket_close s w = local_socket_close_tail s w4"
      using peered [OF Some] by (simp add: w4_def w3_def)
    have r4: "status w4 = Running"
      using fin unfolding eq by (rule status_local_socket_close_tail)
    then have r3: "status w3 = Running"
      unfolding w4_def by (rule status_modify)
    have f3: "heap w3 s = Some so"
      "s \<in> set (local_socket_list w3) \<longleftrightarrow> s \<in> set (local_socket_list w)"
      "s \<in> set (local_socket_closing_list w3) \<longleftrightarrow> s \<in> set (local_socket_closing_list w)"
      using peer_closed_frame [OF pne, of w] so by (simp_all add: w3_def)
    have w4: "w4 = w3\<lparr>heap := (heap w3)(s \<mapsto> so\<lparr>peer := None\<rparr>)\<rparr>"
      unfolding w4_def using r3 f3(1) by (rule modify_live)
    show ?thesis
      using that [of w4] eq f3 by (simp add: w4)
  qed
  have fin4: "status (local_socket_close_tail s w4) = Running"
    using fin eq by simp
  show ?thesis
    using unpeered peered local_socket_close_tail_outcome [OF so4 fin4] l4
    by (simp add: eq)
qed

theorem local_socket_close_effect_witness:
  "status world_draining = Running \<and>
   heap world_draining 10 = Some example_draining \<and>
   peer example_draining \<noteq> Some 10 \<and>
   status (local_socket_close 10 world_draining) = Running \<and>
   heap (local_socket_close 10 world_draining) 10 =
     Some (example_draining\<lparr>peer := None, closing := True, fde_read := False, id_field := 0\<rparr>) \<and>
   fde_write example_draining \<and>
   10 \<notin> set (local_socket_list (local_socket_close 10 world_draining)) \<and>
   10 \<in> set (local_socket_closing_list (local_socket_close 10 world_draining)) \<and>
   heap (local_socket_close 10 world_draining) 20 = None \<and>
   trace (local_socket_close 10 world_draining) =
     [E_SendPacket (Some 3)
        \<lparr>msg = \<lparr>command = A_CLSE, arg0 = 1, arg1 = 7, data_length = 0\<rparr>,
         len = 0, ptr = 0, data = []\<rparr>]"
proof -
  have h: "status world_draining = Running"
    "heap world_draining 10 = Some example_draining"
    "peer example_draining \<noteq> Some 10"
    "status (local_socket_close 10 world_draining) = Running"
    by code_simp+
  have t: "heap (local_socket_close 10 world_draining) 20 = None"
    "trace (local_socket_close 10 world_draining) =
     [E_SendPacket (Some 3)
        \<lparr>msg = \<lparr>command = A_CLSE, arg0 = 1, arg1 = 7, data_length = 0\<rparr>,
         len = 0, ptr = 0, data = []\<rparr>]"
    by code_simp+
  have q: "\<not> (closing example_draining \<or> has_write_error example_draining \<or>
              pkt_queue example_draining = [])"
    "10 \<in> set (local_socket_list world_draining)"
    by code_simp+
  show ?thesis
    using h t q local_socket_close_effect [OF h] by simp
qed

section \<open>\<^verbatim>\<open>local_socket_enqueue\<close>\<close>

text \<open>
  What the descriptor takes: \<open>write_count env n i\<close> is the count that the \<open>i\<close>-th call
  of \<^verbatim>\<open>adb_write\<close> after the first \<open>n\<close> calls is ready to accept, and \<open>split_by\<close> cuts
  bytes into consecutive pieces of given sizes (a piece is shorter where the bytes run
  out).
\<close>

definition write_count :: "adb_env \<Rightarrow> nat \<Rightarrow> nat \<Rightarrow> nat" where
  "write_count env n i = nat (fst (adb_write_result env (n + i)))"

fun split_by :: "nat list \<Rightarrow> 'a list \<Rightarrow> 'a list list" where
  "split_by [] bs = []"
| "split_by (n # ns) bs = take n bs # split_by ns (drop n bs)"

lemma local_socket_write_loop_done:
  "len p = 0 \<Longrightarrow> local_socket_write_loop env fd' p w = (False, p, w)"
  by (subst local_socket_write_loop.simps) simp

lemma local_socket_write_loop_stop:
  assumes "0 < len p" and "fst (adb_write_result env (writes_done w)) \<le> 0"
  shows "local_socket_write_loop env fd' p w =
           (fst (adb_write_result env (writes_done w)) = 0 \<or>
              \<not> snd (adb_write_result env (writes_done w)),
            p, w\<lparr>writes_done := Suc (writes_done w)\<rparr>)"
proof -
  obtain r0 eagain where o: "adb_write_result env (writes_done w) = (r0, eagain)"
    by (cases "adb_write_result env (writes_done w)")
  have "min r0 (int (len p)) = r0" using assms o by simp
  then show ?thesis
    using assms o
    by (subst local_socket_write_loop.simps) (simp add: adb_write_def Let_def)
qed

lemma local_socket_write_loop_step:
  assumes "0 < len p" and "status w = Running"
    and "0 < fst (adb_write_result env (writes_done w))"
  defines "a \<equiv> min (write_count env (writes_done w) 0) (len p)"
  shows "local_socket_write_loop env fd' p w =
           local_socket_write_loop env fd' (p\<lparr>len := len p - a, ptr := ptr p + a\<rparr>)
             (w\<lparr>writes_done := Suc (writes_done w),
                trace := trace w @ [E_AdbWrite fd' (take a (drop (ptr p) (data p)))]\<rparr>)"
proof -
  obtain r0 eagain where o: "adb_write_result env (writes_done w) = (r0, eagain)"
    by (cases "adb_write_result env (writes_done w)")
  have a: "nat (min r0 (int (len p))) = a" "0 < min r0 (int (len p))"
    using assms(1,3) o by (simp_all add: a_def write_count_def)
  show ?thesis
    using assms(1,2) o a
    by (subst local_socket_write_loop.simps) (simp add: adb_write_def Let_def emit_def)
qed

lemma split_by_shift:
  "split_by (a # ns) (take n (drop off bs)) =
     take (min a n) (drop off bs) # split_by ns (take (n - a) (drop (off + a) bs))"
  by (simp add: drop_take add.commute min.commute)

lemma write_count_shift:
  "write_count env (Suc n) i = write_count env n (Suc i)"
  by (simp add: write_count_def)

lemma map_write_count_Suc:
  "map (write_count env n) [0..<Suc k] =
     write_count env n 0 # map (write_count env (Suc n)) [0..<k]"
proof -
  have "[0..<Suc k] = 0 # map Suc [0..<k]"
    by (simp add: upt_conv_Cons map_Suc_upt del: upt_Suc)
  then show ?thesis
    by (simp add: write_count_shift comp_def del: upt_Suc)
qed

lemma sum_write_count_Suc:
  "(\<Sum>i<Suc k. write_count env n i) = write_count env n 0 + (\<Sum>i<k. write_count env (Suc n) i)"
  by (simp add: sum.lessThan_Suc_shift write_count_shift del: sum.lessThan_Suc)

text \<open>
  The write loop in closed form. When the first \<open>k\<close> writes accept bytes, less than the
  packet holds in all, and the next write accepts none, the loop stops there with the
  cursor advanced by the bytes accepted.
\<close>

lemma local_socket_write_loop_blocked:
  assumes "status w = Running"
    and "\<forall>i<k. 0 < fst (adb_write_result env (writes_done w + i))"
    and "(\<Sum>i<k. write_count env (writes_done w) i) < len p"
    and "fst (adb_write_result env (writes_done w + k)) \<le> 0"
  shows "local_socket_write_loop env fd' p w =
           (fst (adb_write_result env (writes_done w + k)) = 0 \<or>
              \<not> snd (adb_write_result env (writes_done w + k)),
            p\<lparr>len := len p - (\<Sum>i<k. write_count env (writes_done w) i),
              ptr := ptr p + (\<Sum>i<k. write_count env (writes_done w) i)\<rparr>,
            w\<lparr>writes_done := writes_done w + k + 1,
              trace := trace w @ map (E_AdbWrite fd')
                (split_by (map (write_count env (writes_done w)) [0..<k])
                   (take (len p) (drop (ptr p) (data p))))\<rparr>)"
  using assms
proof (induction k arbitrary: p w)
  case 0
  then show ?case
    by (simp add: local_socket_write_loop_stop)
next
  case (Suc k)
  let ?n = "writes_done w"
  let ?a = "write_count env ?n 0"
  have pos: "0 < fst (adb_write_result env ?n)"
    using Suc.prems(2) by (metis add.right_neutral zero_less_Suc)
  have sum: "?a + (\<Sum>i<k. write_count env (Suc ?n) i) < len p"
    using Suc.prems(3) by (simp only: sum_write_count_Suc)
  then have a: "min ?a (len p) = ?a" "0 < len p" by simp_all
  define p1 where "p1 = p\<lparr>len := len p - ?a, ptr := ptr p + ?a\<rparr>"
  define w1 where "w1 = w\<lparr>writes_done := Suc ?n,
      trace := trace w @ [E_AdbWrite fd' (take ?a (drop (ptr p) (data p)))]\<rparr>"
  have step: "local_socket_write_loop env fd' p w = local_socket_write_loop env fd' p1 w1"
    using local_socket_write_loop_step [OF a(2) Suc.prems(1) pos, of fd'] a(1)
    by (simp add: p1_def w1_def)
  have w1: "writes_done w1 = Suc ?n" "status w1 = Running"
    using Suc.prems(1) by (simp_all add: w1_def)
  have ih: "local_socket_write_loop env fd' p1 w1 =
           (fst (adb_write_result env (writes_done w1 + k)) = 0 \<or>
              \<not> snd (adb_write_result env (writes_done w1 + k)),
            p1\<lparr>len := len p1 - (\<Sum>i<k. write_count env (writes_done w1) i),
              ptr := ptr p1 + (\<Sum>i<k. write_count env (writes_done w1) i)\<rparr>,
            w1\<lparr>writes_done := writes_done w1 + k + 1,
              trace := trace w1 @ map (E_AdbWrite fd')
                (split_by (map (write_count env (writes_done w1)) [0..<k])
                   (take (len p1) (drop (ptr p1) (data p1))))\<rparr>)"
  proof (rule Suc.IH)
    show "status w1 = Running" by (rule w1)
    show "\<forall>i<k. 0 < fst (adb_write_result env (writes_done w1 + i))"
      using Suc.prems(2) by (auto simp: w1)
    show "(\<Sum>i<k. write_count env (writes_done w1) i) < len p1"
      using sum by (simp add: w1 p1_def)
    show "fst (adb_write_result env (writes_done w1 + k)) \<le> 0"
      using Suc.prems(4) by (simp add: w1)
  qed
  have split: "split_by (map (write_count env ?n) [0..<Suc k]) (take (len p) (drop (ptr p) (data p)))
      = take ?a (drop (ptr p) (data p)) #
        split_by (map (write_count env (Suc ?n)) [0..<k])
          (take (len p - ?a) (drop (ptr p + ?a) (data p)))"
    by (simp only: map_write_count_Suc split_by_shift a(1))
  show ?case
    unfolding step ih
    by (simp only: split sum_write_count_Suc)
      (simp add: w1_def p1_def add.assoc)
qed

text \<open>
  When the first \<open>k\<close> writes accept bytes and the last of them takes the rest of the
  packet, the loop ends with the packet drained after exactly \<open>k\<close> writes.
\<close>

lemma local_socket_write_loop_drained:
  assumes "status w = Running"
    and "\<forall>i<k. 0 < fst (adb_write_result env (writes_done w + i))"
    and "0 < k \<longrightarrow> (\<Sum>i<k - 1. write_count env (writes_done w) i) < len p"
    and "len p \<le> (\<Sum>i<k. write_count env (writes_done w) i)"
  shows "local_socket_write_loop env fd' p w =
           (False, p\<lparr>len := 0, ptr := ptr p + len p\<rparr>,
            w\<lparr>writes_done := writes_done w + k,
              trace := trace w @ map (E_AdbWrite fd')
                (split_by (map (write_count env (writes_done w)) [0..<k])
                   (take (len p) (drop (ptr p) (data p))))\<rparr>)"
  using assms
proof (induction k arbitrary: p w)
  case 0
  then have "len p = 0" by simp
  then show ?case
    by (simp add: local_socket_write_loop_done)
next
  case (Suc k)
  let ?n = "writes_done w"
  let ?a = "min (write_count env ?n 0) (len p)"
  have pos: "0 < fst (adb_write_result env ?n)"
    using Suc.prems(2) by (metis add.right_neutral zero_less_Suc)
  have before: "(\<Sum>i<k. write_count env ?n i) < len p"
    using Suc.prems(3) by simp
  then have lp: "0 < len p" by simp
  have total: "len p \<le> write_count env ?n 0 + (\<Sum>i<k. write_count env (Suc ?n) i)"
    using Suc.prems(4) by (simp only: sum_write_count_Suc)
  define p1 where "p1 = p\<lparr>len := len p - ?a, ptr := ptr p + ?a\<rparr>"
  define w1 where "w1 = w\<lparr>writes_done := Suc ?n,
      trace := trace w @ [E_AdbWrite fd' (take ?a (drop (ptr p) (data p)))]\<rparr>"
  have step: "local_socket_write_loop env fd' p w = local_socket_write_loop env fd' p1 w1"
    using local_socket_write_loop_step [OF lp Suc.prems(1) pos, of fd']
    by (simp add: p1_def w1_def)
  have w1: "writes_done w1 = Suc ?n" "status w1 = Running"
    using Suc.prems(1) by (simp_all add: w1_def)
  have ih: "local_socket_write_loop env fd' p1 w1 =
           (False, p1\<lparr>len := 0, ptr := ptr p1 + len p1\<rparr>,
            w1\<lparr>writes_done := writes_done w1 + k,
              trace := trace w1 @ map (E_AdbWrite fd')
                (split_by (map (write_count env (writes_done w1)) [0..<k])
                   (take (len p1) (drop (ptr p1) (data p1))))\<rparr>)"
  proof (rule Suc.IH)
    show "status w1 = Running" by (rule w1)
    show "\<forall>i<k. 0 < fst (adb_write_result env (writes_done w1 + i))"
      using Suc.prems(2) by (auto simp: w1)
    show "0 < k \<longrightarrow> (\<Sum>i<k - 1. write_count env (writes_done w1) i) < len p1"
    proof
      assume "0 < k"
      then obtain j where k: "k = Suc j" by (cases k) auto
      have "write_count env ?n 0 + (\<Sum>i<j. write_count env (Suc ?n) i) < len p"
        using before unfolding k by (simp only: sum_write_count_Suc)
      then show "(\<Sum>i<k - 1. write_count env (writes_done w1) i) < len p1"
        by (simp add: k w1 p1_def)
    qed
    show "len p1 \<le> (\<Sum>i<k. write_count env (writes_done w1) i)"
      using total by (simp add: w1 p1_def)
  qed
  have tail: "split_by (map (write_count env (Suc ?n)) [0..<k])
          (take (len p - write_count env ?n 0) (drop (ptr p + write_count env ?n 0) (data p)))
      = split_by (map (write_count env (Suc ?n)) [0..<k])
          (take (len p - ?a) (drop (ptr p + ?a) (data p)))"
  proof (cases k)
    case 0
    then show ?thesis by simp
  next
    case (Suc j)
    have "write_count env ?n 0 + (\<Sum>i<j. write_count env (Suc ?n) i) < len p"
      using before unfolding Suc by (simp only: sum_write_count_Suc)
    then have "?a = write_count env ?n 0" by simp
    then show ?thesis by simp
  qed
  have split: "split_by (map (write_count env ?n) [0..<Suc k]) (take (len p) (drop (ptr p) (data p)))
      = take ?a (drop (ptr p) (data p)) #
        split_by (map (write_count env (Suc ?n)) [0..<k])
          (take (len p - ?a) (drop (ptr p + ?a) (data p)))"
    by (simp only: map_write_count_Suc split_by_shift tail)
  have le: "?a \<le> len p" by simp
  show ?case
    unfolding step ih
    by (simp only: split) (use le in \<open>simp add: w1_def p1_def\<close>)
qed

text \<open>
  An environment of the device side: limits of 4096 and 262144 bytes, transports online,
  one transport (number 3) to acquire, and every write failing with \<^verbatim>\<open>EAGAIN\<close>.
\<close>

definition example_env :: adb_env where
  "example_env =
     \<lparr>ADB_HOST = False, MAX_PAYLOAD_V1 = 4096, MAX_PAYLOAD = 262144,
      transport_max_payload = (\<lambda>t. 4096), transport_offline = (\<lambda>t. False),
      handle_host_request = (\<lambda>service type serial. (1, None)),
      host_service_to_socket = (\<lambda>name serial. None),
      acquire_one_transport = (Some 3, []),
      adb_write_result = (\<lambda>n. (-1, True))\<rparr>"

text \<open>
  C5. \<^verbatim>\<open>local_socket_enqueue\<close> on a live local endpoint, with \<open>n\<close> calls of \<^verbatim>\<open>adb_write\<close>
  made before.
  \<^item> With a non-empty queue the packet is appended, write-readiness is armed and the
    result is 1; nothing is written (the trace and the count of writes do not change).
  \<^item> With an empty queue, when the next \<open>k\<close> writes all accept bytes and the \<open>k\<close>-th is
    the first to reach the end of the packet: exactly these \<open>k\<close> writes are made, each
    from the cursor where the one before stopped, the packet is given back and the
    result is 0.
  \<^item> With an empty queue, when the next \<open>k\<close> writes accept fewer bytes than the packet
    holds and the write after them fails with \<^verbatim>\<open>EAGAIN\<close>: exactly these \<open>k + 1\<close> writes are
    made, the packet with its cursor advanced by the bytes accepted becomes the queue,
    write-readiness is armed and the result is 1.
\<close>

theorem local_socket_enqueue_effect:
  assumes run: "status w = Running" and so: "heap w s = Some so"
  defines "n \<equiv> writes_done w"
  shows "(pkt_queue so \<noteq> [] \<longrightarrow>
            local_socket_enqueue env s p w =
              (1, w\<lparr>heap := (heap w)(s \<mapsto> so\<lparr>pkt_queue := pkt_queue so @ [p\<lparr>ptr := 0\<rparr>],
                                                  fde_write := True\<rparr>)\<rparr>)) \<and>
         (pkt_queue so = [] \<longrightarrow>
            (\<forall>k. (\<forall>i<k. 0 < fst (adb_write_result env (n + i))) \<and>
                 (0 < k \<longrightarrow> (\<Sum>i<k - 1. write_count env n i) < len p) \<and>
                 len p \<le> (\<Sum>i<k. write_count env n i) \<longrightarrow>
                 local_socket_enqueue env s p w =
                   (0, w\<lparr>writes_done := n + k,
                          trace := trace w @
                            map (E_AdbWrite (fd so))
                              (split_by (map (write_count env n) [0..<k]) (take (len p) (data p))) @
                            [E_PutApacket (p\<lparr>len := 0, ptr := len p\<rparr>)]\<rparr>)) \<and>
            (\<forall>k. (\<forall>i<k. 0 < fst (adb_write_result env (n + i))) \<and>
                 (\<Sum>i<k. write_count env n i) < len p \<and>
                 fst (adb_write_result env (n + k)) < 0 \<and> snd (adb_write_result env (n + k)) \<longrightarrow>
                 local_socket_enqueue env s p w =
                   (1, w\<lparr>heap := (heap w)
                            (s \<mapsto> so\<lparr>pkt_queue :=
                                        [p\<lparr>len := len p - (\<Sum>i<k. write_count env n i),
                                           ptr := (\<Sum>i<k. write_count env n i)\<rparr>],
                                      fde_write := True\<rparr>),
                          writes_done := n + k + 1,
                          trace := trace w @
                            map (E_AdbWrite (fd so))
                              (split_by (map (write_count env n) [0..<k])
                                 (take (len p) (data p)))\<rparr>)))"
proof -
  have queued: "local_socket_enqueue env s p w =
      (1, w\<lparr>heap := (heap w)(s \<mapsto> so\<lparr>pkt_queue := pkt_queue so @ [p\<lparr>ptr := 0\<rparr>],
                                          fde_write := True\<rparr>)\<rparr>)"
    if "pkt_queue so \<noteq> []"
    using that run so by (simp add: local_socket_enqueue_def fdevent_add_def modify_def Let_def)
  have drained: "local_socket_enqueue env s p w =
      (0, w\<lparr>writes_done := n + k,
             trace := trace w @
               map (E_AdbWrite (fd so))
                 (split_by (map (write_count env n) [0..<k]) (take (len p) (data p))) @
               [E_PutApacket (p\<lparr>len := 0, ptr := len p\<rparr>)]\<rparr>)"
    if q: "pkt_queue so = []"
      and c: "(\<forall>i<k. 0 < fst (adb_write_result env (n + i))) \<and>
          (0 < k \<longrightarrow> (\<Sum>i<k - 1. write_count env n i) < len p) \<and>
          len p \<le> (\<Sum>i<k. write_count env n i)"
    for k
  proof -
    have loop: "local_socket_write_loop env (fd so) (p\<lparr>ptr := 0\<rparr>) w =
           (False, p\<lparr>ptr := 0\<rparr>\<lparr>len := 0, ptr := ptr (p\<lparr>ptr := 0\<rparr>) + len (p\<lparr>ptr := 0\<rparr>)\<rparr>,
            w\<lparr>writes_done := writes_done w + k,
              trace := trace w @ map (E_AdbWrite (fd so))
                (split_by (map (write_count env (writes_done w)) [0..<k])
                   (take (len (p\<lparr>ptr := 0\<rparr>)) (drop (ptr (p\<lparr>ptr := 0\<rparr>)) (data (p\<lparr>ptr := 0\<rparr>)))))\<rparr>)"
      using c run unfolding n_def by (intro local_socket_write_loop_drained) simp_all
    show ?thesis
      using run so q
      by (simp add: local_socket_enqueue_def loop put_apacket_def emit_def Let_def n_def)
  qed
  have blocked: "local_socket_enqueue env s p w =
      (1, w\<lparr>heap := (heap w)
               (s \<mapsto> so\<lparr>pkt_queue :=
                           [p\<lparr>len := len p - (\<Sum>i<k. write_count env n i),
                              ptr := (\<Sum>i<k. write_count env n i)\<rparr>],
                         fde_write := True\<rparr>),
             writes_done := n + k + 1,
             trace := trace w @
               map (E_AdbWrite (fd so))
                 (split_by (map (write_count env n) [0..<k]) (take (len p) (data p)))\<rparr>)"
    if q: "pkt_queue so = []"
      and c: "(\<forall>i<k. 0 < fst (adb_write_result env (n + i))) \<and>
          (\<Sum>i<k. write_count env n i) < len p \<and>
          fst (adb_write_result env (n + k)) < 0 \<and> snd (adb_write_result env (n + k))"
    for k
  proof -
    have loop: "local_socket_write_loop env (fd so) (p\<lparr>ptr := 0\<rparr>) w =
           (fst (adb_write_result env (writes_done w + k)) = 0 \<or>
              \<not> snd (adb_write_result env (writes_done w + k)),
            p\<lparr>ptr := 0\<rparr>\<lparr>len := len (p\<lparr>ptr := 0\<rparr>) - (\<Sum>i<k. write_count env (writes_done w) i),
              ptr := ptr (p\<lparr>ptr := 0\<rparr>) + (\<Sum>i<k. write_count env (writes_done w) i)\<rparr>,
            w\<lparr>writes_done := writes_done w + k + 1,
              trace := trace w @ map (E_AdbWrite (fd so))
                (split_by (map (write_count env (writes_done w)) [0..<k])
                   (take (len (p\<lparr>ptr := 0\<rparr>)) (drop (ptr (p\<lparr>ptr := 0\<rparr>)) (data (p\<lparr>ptr := 0\<rparr>)))))\<rparr>)"
      using c run unfolding n_def by (intro local_socket_write_loop_blocked) simp_all
    have ne: "len p - (\<Sum>i<k. write_count env n i) \<noteq> 0"
      using c by simp
    show ?thesis
      using run so q c ne
      by (simp add: local_socket_enqueue_def loop fdevent_add_def modify_def Let_def n_def)
  qed
  show ?thesis
    apply (rule conjI)
     apply (rule impI, erule queued)
    apply (rule impI, rule conjI)
     apply (intro allI impI, erule (1) drained)
    apply (intro allI impI, erule (1) blocked)
    done
qed

text \<open>
  The packet \<open>abc\<close> for the endpoint at address 10 (empty queue, descriptor 5). When the
  descriptor takes two bytes and then would block, the remainder, with the cursor at 2,
  is queued after two calls of \<^verbatim>\<open>adb_write\<close>; when the descriptor takes everything, one
  call writes the three bytes and the packet is given back.
\<close>

theorem local_socket_enqueue_effect_witness:
  "status world_local_remote = Running \<and>
   heap world_local_remote 10 = Some (example_local\<lparr>peer := Some 20\<rparr>) \<and>
   pkt_queue (example_local\<lparr>peer := Some 20\<rparr>) = [] \<and>
   adb_write_result (example_env\<lparr>adb_write_result := (\<lambda>n. if n = 0 then (2, False) else (-1, True))\<rparr>) 0
     = (2, False) \<and>
   adb_write_result (example_env\<lparr>adb_write_result := (\<lambda>n. if n = 0 then (2, False) else (-1, True))\<rparr>) 1
     = (-1, True) \<and>
   len (packet_of ''abc'') = 3 \<and>
   local_socket_enqueue (example_env\<lparr>adb_write_result := (\<lambda>n. if n = 0 then (2, False) else (-1, True))\<rparr>)
     10 (packet_of ''abc'') world_local_remote =
     (1, world_local_remote
           \<lparr>heap := (heap world_local_remote)
              (10 \<mapsto> example_local\<lparr>peer := Some 20,
                                     pkt_queue := [(packet_of ''abc'')\<lparr>len := 1, ptr := 2\<rparr>],
                                     fde_write := True\<rparr>),
            writes_done := 2, trace := [E_AdbWrite 5 ''ab'']\<rparr>) \<and>
   adb_write_result (example_env\<lparr>adb_write_result := (\<lambda>n. (5, False))\<rparr>) 0 = (5, False) \<and>
   local_socket_enqueue (example_env\<lparr>adb_write_result := (\<lambda>n. (5, False))\<rparr>)
     10 (packet_of ''abc'') world_local_remote =
     (0, world_local_remote
           \<lparr>writes_done := 1,
            trace := [E_AdbWrite 5 ''abc'', E_PutApacket ((packet_of ''abc'')\<lparr>len := 0, ptr := 3\<rparr>)]\<rparr>)"
proof -
  let ?env1 = "example_env\<lparr>adb_write_result := (\<lambda>n. if n = 0 then (2, False) else (-1, True))\<rparr>"
  let ?env2 = "example_env\<lparr>adb_write_result := (\<lambda>n. (5, False))\<rparr>"
  let ?so = "example_local\<lparr>peer := Some 20\<rparr>"
  have h: "status world_local_remote = Running" "heap world_local_remote 10 = Some ?so"
    by (simp_all add: world_local_remote_def)
  have q: "pkt_queue ?so = []" and f: "fd ?so = 5"
    by (simp_all add: example_local_def calloc_asocket_def)
  have n: "writes_done world_local_remote = 0" "trace world_local_remote = []"
    by (simp_all add: world_local_remote_def)
  have l: "len (packet_of ''abc'') = 3" "data (packet_of ''abc'') = ''abc''"
    by (simp_all add: packet_of_def)
  have o1: "adb_write_result ?env1 0 = (2, False)" "adb_write_result ?env1 1 = (-1, True)"
    and o2: "adb_write_result ?env2 0 = (5, False)"
    by simp_all
  have c1: "(\<forall>i<1. 0 < fst (adb_write_result ?env1 (writes_done world_local_remote + i))) \<and>
      (\<Sum>i<1. write_count ?env1 (writes_done world_local_remote) i) < len (packet_of ''abc'') \<and>
      fst (adb_write_result ?env1 (writes_done world_local_remote + 1)) < 0 \<and>
      snd (adb_write_result ?env1 (writes_done world_local_remote + 1))"
    by (simp add: n l write_count_def)
  have c2: "(\<forall>i<1. 0 < fst (adb_write_result ?env2 (writes_done world_local_remote + i))) \<and>
      (0 < (1::nat) \<longrightarrow>
         (\<Sum>i<1 - 1. write_count ?env2 (writes_done world_local_remote) i) < len (packet_of ''abc'')) \<and>
      len (packet_of ''abc'') \<le> (\<Sum>i<1. write_count ?env2 (writes_done world_local_remote) i)"
    by (simp add: n l write_count_def)
  note t1 = local_socket_enqueue_effect [OF h, of ?env1 "packet_of ''abc''", THEN conjunct2,
      THEN mp, OF q, THEN conjunct2, THEN spec, of 1, THEN mp, OF c1]
  note t2 = local_socket_enqueue_effect [OF h, of ?env2 "packet_of ''abc''", THEN conjunct2,
      THEN mp, OF q, THEN conjunct1, THEN spec, of 1, THEN mp, OF c2]
  have r1: "local_socket_enqueue ?env1 10 (packet_of ''abc'') world_local_remote =
     (1, world_local_remote
           \<lparr>heap := (heap world_local_remote)
              (10 \<mapsto> example_local\<lparr>peer := Some 20,
                                     pkt_queue := [(packet_of ''abc'')\<lparr>len := 1, ptr := 2\<rparr>],
                                     fde_write := True\<rparr>),
            writes_done := 2, trace := [E_AdbWrite 5 ''ab'']\<rparr>)"
    using t1 by (simp add: n l f write_count_def)
  have r2: "local_socket_enqueue ?env2 10 (packet_of ''abc'') world_local_remote =
     (0, world_local_remote
           \<lparr>writes_done := 1,
            trace := [E_AdbWrite 5 ''abc'', E_PutApacket ((packet_of ''abc'')\<lparr>len := 0, ptr := 3\<rparr>)]\<rparr>)"
    using t2 by (simp add: n l f write_count_def)
  show ?thesis
    using h q o1 o2 l(1) r1 r2 by simp
qed

text \<open>
  C1, on the write-error path. The local endpoint at address 10 has an empty queue and
  the write to its descriptor fails with an error other than \<^verbatim>\<open>EAGAIN\<close>:
  \<^verbatim>\<open>local_socket_enqueue\<close> closes the endpoint (it is freed, and with it its peer at
  address 20) and returns 1.
\<close>

theorem local_socket_enqueue_write_error:
  "fst (local_socket_enqueue (example_env\<lparr>adb_write_result := (\<lambda>n. (-1, False))\<rparr>) 10
          (packet_of ''abc'') world_local_remote) = 1 \<and>
   heap (snd (local_socket_enqueue (example_env\<lparr>adb_write_result := (\<lambda>n. (-1, False))\<rparr>) 10
          (packet_of ''abc'') world_local_remote)) 10 = None \<and>
   heap (snd (local_socket_enqueue (example_env\<lparr>adb_write_result := (\<lambda>n. (-1, False))\<rparr>) 10
          (packet_of ''abc'') world_local_remote)) 20 = None \<and>
   status (snd (local_socket_enqueue (example_env\<lparr>adb_write_result := (\<lambda>n. (-1, False))\<rparr>) 10
          (packet_of ''abc'') world_local_remote)) = Running"
proof -
  let ?env = "example_env\<lparr>adb_write_result := (\<lambda>n. (-1, False))\<rparr>"
  let ?p = "(packet_of ''abc'')\<lparr>ptr := 0\<rparr>"
  define w3 where "w3 = modify 10 (\<lambda>so. so\<lparr>has_write_error := True\<rparr>)
     (put_apacket ?p (world_local_remote\<lparr>writes_done := 1\<rparr>))"
  have loop: "local_socket_write_loop ?env 5 ?p world_local_remote =
      (True, ?p, world_local_remote\<lparr>writes_done := 1\<rparr>)"
  proof -
    have "writes_done world_local_remote = 0"
      by (simp add: world_local_remote_def)
    then show ?thesis
      by (simp add: local_socket_write_loop.simps adb_write_def packet_of_def example_env_def
          Let_def)
  qed
  have eq: "local_socket_enqueue ?env 10 (packet_of ''abc'') world_local_remote =
      (1, asocket_close 10 w3)"
    using loop
    by (simp add: local_socket_enqueue_def world_local_remote_def example_local_def
        calloc_asocket_def Let_def w3_def)
  have "heap (asocket_close 10 w3) 10 = None" "heap (asocket_close 10 w3) 20 = None"
    "status (asocket_close 10 w3) = Running"
    unfolding w3_def by code_simp+
  then show ?thesis
    by (simp add: eq)
qed

definition hex_char :: "nat \<Rightarrow> char" where
  "hex_char d = ''0123456789abcdef'' ! d"

definition hex4 :: "nat \<Rightarrow> string" where
  "hex4 n = map hex_char [n div 4096 mod 16, n div 256 mod 16, n div 16 mod 16, n mod 16]"

lemma hex_digit_hex_char_all: "\<forall>d \<in> set [0..<16]. hex_digit (hex_char d) = Some (of_nat d)"
  by code_simp

lemma hex_digit_hex_char: "d < 16 \<Longrightarrow> hex_digit (hex_char d) = Some (of_nat d)"
  using hex_digit_hex_char_all by simp

lemma nibble_or:
  fixes n :: "32 word"
  assumes "d < 16"
  shows "push_bit 4 n OR of_nat d = n * 16 + of_nat d"
proof -
  have "push_bit 4 n + of_nat d = push_bit 4 n OR (of_nat d :: 32 word)"
  proof (rule disjunctive_add)
    fix k
    show "\<not> bit (push_bit 4 n) k \<or> \<not> bit (of_nat d :: 32 word) k"
    proof (cases "k < 4")
      case True
      then show ?thesis by (simp add: bit_push_bit_iff)
    next
      case False
      then have "(2::nat) ^ 4 \<le> 2 ^ k"
        by (intro power_increasing) simp_all
      then have "d < 2 ^ k" using assms by simp
      then have "\<not> bit d k" by (simp add: bit_iff_odd)
      then show ?thesis by (simp add: bit_of_nat_iff)
    qed
  qed
  then show ?thesis by (simp add: push_bit_eq_mult)
qed


lemma hex_digits_of:
  fixes n :: nat
  shows "n mod 65536 =
    ((n div 4096 mod 16 * 16 + n div 256 mod 16) * 16 + n div 16 mod 16) * 16 + n mod 16"
proof -
  define q1 q2 q3 q4 where "q1 = n div 16" and "q2 = q1 div 16" and "q3 = q2 div 16"
    and "q4 = q3 div 16"
  define d0 d1 d2 d3 where "d0 = n mod 16" and "d1 = q1 mod 16" and "d2 = q2 mod 16"
    and "d3 = q3 mod 16"
  have e1: "n div 256 = q2" "n div 4096 = q3"
    by (simp_all add: q1_def q2_def q3_def div_mult2_eq [symmetric])
  have lt: "d0 < 16" "d1 < 16" "d2 < 16" "d3 < 16"
    by (simp_all add: d0_def d1_def d2_def d3_def)
  have "n = q1 * 16 + d0" "q1 = q2 * 16 + d1" "q2 = q3 * 16 + d2" "q3 = q4 * 16 + d3"
    by (simp_all add: q1_def q2_def q3_def q4_def d0_def d1_def d2_def d3_def)
  then have "n = q4 * 65536 + (((d3 * 16 + d2) * 16 + d1) * 16 + d0)"
    by (simp add: algebra_simps)
  moreover have "((d3 * 16 + d2) * 16 + d1) * 16 + d0 < 65536"
    using lt by (simp add: algebra_simps)
  ultimately have "n mod 65536 = ((d3 * 16 + d2) * 16 + d1) * 16 + d0"
    by (metis mod_mult_self3 mod_less)
  then show ?thesis
    by (simp add: e1 d0_def d1_def d2_def d3_def q1_def)
qed

lemma unhex_hex4:
  assumes "n < 65536"
  shows "unhex (hex4 n @ rest) 4 = of_nat n"
proof -
  define d3 d2 d1 d0 where "d3 = n div 4096 mod 16" and "d2 = n div 256 mod 16"
    and "d1 = n div 16 mod 16" and "d0 = n mod 16"
  have lt: "d3 < 16" "d2 < 16" "d1 < 16" "d0 < 16"
    by (simp_all add: d3_def d2_def d1_def d0_def)
  have n: "n = ((d3 * 16 + d2) * 16 + d1) * 16 + d0"
    using assms hex_digits_of [of n] by (simp add: d3_def d2_def d1_def d0_def)
  have "unhex (hex4 n @ rest) 4 = unhex_loop 0 [hex_char d3, hex_char d2, hex_char d1, hex_char d0]"
    by (simp add: unhex_def hex4_def d3_def d2_def d1_def d0_def)
  also have "\<dots> = push_bit 4 (push_bit 4 (push_bit 4 (push_bit 4 0 OR of_nat d3) OR of_nat d2)
      OR of_nat d1) OR of_nat d0"
    by (simp add: hex_digit_hex_char lt)
  also have "\<dots> = ((of_nat d3 * 16 + of_nat d2) * 16 + of_nat d1) * 16 + of_nat d0"
    by (simp only: nibble_or [OF lt(1)] nibble_or [OF lt(2)] nibble_or [OF lt(3)]
        nibble_or [OF lt(4)]) simp
  also have "\<dots> = of_nat (((d3 * 16 + d2) * 16 + d1) * 16 + d0)"
    by simp
  finally show ?thesis
    using n by simp
qed

lemma unhex_loop_not_hex:
  "\<exists>c \<in> set cs. hex_digit c = None \<Longrightarrow> unhex_loop n cs = 0xffffffff"
  by (induction cs arbitrary: n) (auto split: option.splits)

lemma unhex_not_hex:
  "\<exists>c \<in> set (take 4 s). hex_digit c = None \<Longrightarrow> unhex s 4 = 0xffffffff"
  by (simp add: unhex_def unhex_loop_not_hex)

section \<open>The framing of the smart socket\<close>

lemma smart_socket_close_frees:
  assumes "status (smart_socket_close s w) = Running"
  shows "heap (smart_socket_close s w) s = None"
proof -
  have "\<exists>w'. smart_socket_close s w = free s w' \<and> status w' = Running"
    using assms
    by (subst (asm) smart_socket_close.simps, subst smart_socket_close.simps)
      (auto simp: halt_def Let_def status_free split: if_splits option.splits)
  then show ?thesis using heap_free by auto
qed

lemma asocket_close_smart:
  assumes "status w = Running" and "heap w s = Some so"
    and "close so = Some smart_socket_close_fn"
  shows "asocket_close s w = smart_socket_close s w"
  using assms by (subst asocket_close.simps) simp

lemma fail_label_smart:
  assumes "status w = Running" and "heap w s = Some so"
    and "close so = Some smart_socket_close_fn"
  shows "fst (fail_label s w) = -1 \<and>
         (status (snd (fail_label s w)) = Running \<longrightarrow> heap (snd (fail_label s w)) s = None)"
  using assms smart_socket_close_frees [of s w]
  by (simp add: fail_label_def asocket_close_smart)

lemma unat_plus_4:
  fixes x :: "32 word"
  assumes "unat x + 4 < 2 ^ 32"
  shows "unat (x + 4) = unat x + 4"
proof -
  have "unat x + unat (4 :: 32 word) < 2 ^ LENGTH(32)"
    using assms by simp
  then have "unat (x + 4) = unat x + unat (4 :: 32 word)"
    by (simp only: unat_add_lem)
  then show ?thesis by simp
qed

lemma smart_socket_frame_short:
  "len p < 4 \<Longrightarrow> smart_socket_frame env p = frame_incomplete"
  by (simp add: smart_socket_frame_def)

lemma smart_socket_frame_bad:
  assumes "4 \<le> len p"
    and "unat (unhex (data p) 4) < 1 \<or> MAX_PAYLOAD_V1 env < unat (unhex (data p) 4)"
  shows "smart_socket_frame env p = frame_bad_size"
proof -
  have "unhex (data p) 4 < 1 \<longleftrightarrow> unat (unhex (data p) 4) < 1"
    by (simp add: word_less_nat_alt)
  then show ?thesis
    using assms by (auto simp: smart_socket_frame_def Let_def)
qed

lemma smart_socket_frame_waiting:
  assumes "4 \<le> len p" and "1 \<le> unat (unhex (data p) 4)"
    and "unat (unhex (data p) 4) \<le> MAX_PAYLOAD_V1 env"
    and "MAX_PAYLOAD_V1 env + 4 < 2 ^ 32"
    and "len p < 4 + unat (unhex (data p) 4)"
  shows "smart_socket_frame env p = frame_incomplete"
proof -
  have "unhex (data p) 4 < 1 \<longleftrightarrow> unat (unhex (data p) 4) < 1"
    by (simp add: word_less_nat_alt)
  moreover have "unat (unhex (data p) 4 + 4) = unat (unhex (data p) 4) + 4"
    using assms by (intro unat_plus_4) simp
  ultimately show ?thesis
    using assms by (simp add: smart_socket_frame_def Let_def)
qed

lemma smart_socket_request_incomplete:
  assumes "status w = Running" and "heap w s = Some so" and "pkt_queue so = p # rest"
    and "smart_socket_frame env p = frame_incomplete"
  shows "smart_socket_request env s w = (0, w)"
  using assms by (simp add: smart_socket_request_def)

lemma smart_socket_request_bad:
  assumes "status w = Running" and "heap w s = Some so" and "pkt_queue so = p # rest"
    and "smart_socket_frame env p = frame_bad_size"
  shows "smart_socket_request env s w = fail_label s w"
  using assms by (simp add: smart_socket_request_def)

text \<open>The bytes that \<^verbatim>\<open>smart_socket_enqueue\<close> holds once \<open>p\<close> has been taken in.\<close>

definition accumulated :: "asocket \<Rightarrow> apacket \<Rightarrow> apacket" where
  "accumulated so p =
     (case pkt_queue so of
        [] \<Rightarrow> p
      | pkt_first # rest \<Rightarrow>
          pkt_first\<lparr>data := memcpy (data pkt_first) (len pkt_first) (data p) (len p),
                    len := len pkt_first + len p\<rparr>)"

text \<open>The test \<^verbatim>\<open>(s->pkt_first->len + p->len) > s->get_max_payload()\<close>.\<close>

definition overflows :: "adb_env \<Rightarrow> addr \<Rightarrow> apacket \<Rightarrow> world \<Rightarrow> bool" where
  "overflows env s p w =
     (case heap w s of
        None \<Rightarrow> False
      | Some so \<Rightarrow>
          (case pkt_queue so of
             [] \<Rightarrow> False
           | pkt_first # rest \<Rightarrow>
               (case get_max_payload env s w of
                  None \<Rightarrow> False
                | Some max_payload \<Rightarrow> len pkt_first + len p > max_payload)))"

text \<open>
  The state once \<open>p\<close> has been taken in: the first packet becomes the queue; a later one
  is copied behind the bytes of the head and given back.
\<close>

definition taken_in :: "addr \<Rightarrow> apacket \<Rightarrow> world \<Rightarrow> world" where
  "taken_in s p w =
     (case heap w s of
        None \<Rightarrow> w
      | Some so \<Rightarrow>
          (case pkt_queue so of
             [] \<Rightarrow> w\<lparr>heap := (heap w)(s \<mapsto> so\<lparr>pkt_queue := [p]\<rparr>)\<rparr>
           | pkt_first # rest \<Rightarrow>
               w\<lparr>heap := (heap w)(s \<mapsto> so\<lparr>pkt_queue := accumulated so p # rest\<rparr>),
                 trace := trace w @ [E_PutApacket p]\<rparr>))"

lemma taken_in_facts:
  assumes "status w = Running" and "heap w s = Some so"
  shows "status (taken_in s p w) = Running"
    and "heap (taken_in s p w) s = Some (so\<lparr>pkt_queue := accumulated so p # tl (pkt_queue so)\<rparr>)"
  using assms by (simp_all add: taken_in_def accumulated_def split: list.splits)

lemma smart_socket_enqueue_accumulates:
  assumes run: "status w = Running" and so: "heap w s = Some so"
    and mp: "get_max_payload env s w \<noteq> None" and nov: "\<not> overflows env s p w"
  shows "smart_socket_enqueue env s p w = smart_socket_request env s (taken_in s p w)"
proof (cases "pkt_queue so")
  case Nil
  then show ?thesis
    using run so by (simp add: smart_socket_enqueue_def taken_in_def modify_def)
next
  case (Cons pkt_first rest)
  obtain max_payload where m: "get_max_payload env s w = Some max_payload"
    using mp by auto
  have "\<not> len pkt_first + len p > max_payload"
    using nov so Cons m by (simp add: overflows_def)
  then show ?thesis
    using run so Cons m
    by (simp add: smart_socket_enqueue_def taken_in_def accumulated_def Let_def modify_def
        put_apacket_def emit_def)
qed

lemma smart_socket_enqueue_overflow:
  assumes run: "status w = Running" and so: "heap w s = Some so"
    and ov: "overflows env s p w"
  shows "smart_socket_enqueue env s p w = fail_label s (put_apacket p w)"
  using assms
  by (auto simp: smart_socket_enqueue_def overflows_def split: list.splits option.splits)

text \<open>
  C3, as the code has it. Let \<open>b\<close> be the bytes held once the packet \<open>p\<close> has been taken
  in and \<open>n\<close> the value of its four-digit header. On a live smart endpoint:
  \<^item> when the packet fits and either fewer than 4 bytes are held, or \<open>n\<close> lies in
    \<open>[1, MAX_PAYLOAD_V1]\<close> and \<open>4 + n\<close> exceeds the bytes held, the result is 0 and the
    endpoint stays alive, holding \<open>b\<close>; nothing else happens;
  \<^item> when the packet does not fit, it is given back, the endpoint closes itself and the
    result is -1;
  \<^item> when the packet fits, 4 bytes are held and one of the first four is not a hex digit
    or \<open>n\<close> lies outside \<open>[1, MAX_PAYLOAD_V1]\<close>, the endpoint closes itself and the result
    is -1;
  \<^item> an endpoint that has closed itself is freed when the call returns;
  \<^item> a header with a character that is not a hex digit decodes to \<open>0xFFFFFFFF\<close>.
\<close>

theorem smart_socket_enqueue_framing:
  fixes env :: adb_env and p :: apacket
  assumes run: "status w = Running" and so: "heap w s = Some so"
    and cl: "close so = Some smart_socket_close_fn"
    and mp: "get_max_payload env s w \<noteq> None"
    and lim: "MAX_PAYLOAD_V1 env + 4 < 2 ^ 32"
  defines "b \<equiv> accumulated so p"
  defines "n \<equiv> unat (unhex (data b) 4)"
  defines "res \<equiv> smart_socket_enqueue env s p w"
  shows "(\<not> overflows env s p w \<and>
            (len b < 4 \<or> (1 \<le> n \<and> n \<le> MAX_PAYLOAD_V1 env \<and> len b < 4 + n)) \<longrightarrow>
            res = (0, taken_in s p w)) \<and>
         (overflows env s p w \<longrightarrow>
            res = (-1, smart_socket_close s (w\<lparr>trace := trace w @ [E_PutApacket p]\<rparr>)) \<and>
            (status (snd res) = Running \<longrightarrow> heap (snd res) s = None)) \<and>
         (\<not> overflows env s p w \<and> 4 \<le> len b \<and>
            ((\<exists>c \<in> set (take 4 (data b)). hex_digit c = None) \<or>
             n < 1 \<or> MAX_PAYLOAD_V1 env < n) \<longrightarrow>
            res = (-1, smart_socket_close s (taken_in s p w)) \<and>
            (status (snd res) = Running \<longrightarrow> heap (snd res) s = None)) \<and>
         ((\<exists>c \<in> set (take 4 (data b)). hex_digit c = None) \<longrightarrow>
            unhex (data b) 4 = 0xFFFFFFFF)"
proof -
  note ti = taken_in_facts [OF run so, of p, folded b_def]
  have hd: "pkt_queue (so\<lparr>pkt_queue := b # tl (pkt_queue so)\<rparr>) = b # tl (pkt_queue so)"
    by simp
  have nothex: "unhex (data b) 4 = 0xFFFFFFFF"
    if "\<exists>c \<in> set (take 4 (data b)). hex_digit c = None"
    using that by (rule unhex_not_hex)
  have alive: "res = (0, taken_in s p w)"
    if nov: "\<not> overflows env s p w"
      and c: "len b < 4 \<or> (1 \<le> n \<and> n \<le> MAX_PAYLOAD_V1 env \<and> len b < 4 + n)"
  proof -
    have "smart_socket_frame env b = frame_incomplete"
    proof (cases "len b < 4")
      case True
      then show ?thesis by (rule smart_socket_frame_short)
    next
      case False
      then show ?thesis
        using c lim unfolding n_def by (intro smart_socket_frame_waiting) simp_all
    qed
    then have "smart_socket_request env s (taken_in s p w) = (0, taken_in s p w)"
      using ti hd by (intro smart_socket_request_incomplete)
    then show ?thesis
      using smart_socket_enqueue_accumulates [OF run so mp nov] by (simp add: res_def)
  qed
  have over: "res = (-1, smart_socket_close s (w\<lparr>trace := trace w @ [E_PutApacket p]\<rparr>))"
    if ov: "overflows env s p w"
  proof -
    have "res = fail_label s (put_apacket p w)"
      unfolding res_def using run so ov by (rule smart_socket_enqueue_overflow)
    moreover have "put_apacket p w = w\<lparr>trace := trace w @ [E_PutApacket p]\<rparr>"
      using run by (simp add: put_apacket_def emit_def)
    moreover have "asocket_close s (w\<lparr>trace := trace w @ [E_PutApacket p]\<rparr>) =
        smart_socket_close s (w\<lparr>trace := trace w @ [E_PutApacket p]\<rparr>)"
      using run so cl by (intro asocket_close_smart) simp_all
    ultimately show ?thesis by (simp add: fail_label_def)
  qed
  have bad: "res = (-1, smart_socket_close s (taken_in s p w))"
    if nov: "\<not> overflows env s p w" and l: "4 \<le> len b"
      and c: "(\<exists>c \<in> set (take 4 (data b)). hex_digit c = None) \<or>
              n < 1 \<or> MAX_PAYLOAD_V1 env < n"
  proof -
    have big: "MAX_PAYLOAD_V1 env < n" if "\<exists>c \<in> set (take 4 (data b)). hex_digit c = None"
      using nothex [OF that] lim by (simp add: n_def)
    have "smart_socket_frame env b = frame_bad_size"
      using c l big unfolding n_def by (intro smart_socket_frame_bad) auto
    then have "smart_socket_request env s (taken_in s p w) = fail_label s (taken_in s p w)"
      using ti hd by (intro smart_socket_request_bad)
    moreover have "asocket_close s (taken_in s p w) = smart_socket_close s (taken_in s p w)"
      using ti cl
      by (intro asocket_close_smart [where so = "so\<lparr>pkt_queue := b # tl (pkt_queue so)\<rparr>"])
        simp_all
    ultimately show ?thesis
      using smart_socket_enqueue_accumulates [OF run so mp nov]
      by (simp add: res_def fail_label_def)
  qed
  have freed: "status (snd res) = Running \<longrightarrow> heap (snd res) s = None"
    if "res = (-1, smart_socket_close s x)" for x
    using that smart_socket_close_frees [of s x] by simp
  have c1: "\<not> overflows env s p w \<and>
            (len b < 4 \<or> (1 \<le> n \<and> n \<le> MAX_PAYLOAD_V1 env \<and> len b < 4 + n)) \<longrightarrow>
            res = (0, taken_in s p w)"
    using alive by simp
  have c2: "overflows env s p w \<longrightarrow>
            res = (-1, smart_socket_close s (w\<lparr>trace := trace w @ [E_PutApacket p]\<rparr>)) \<and>
            (status (snd res) = Running \<longrightarrow> heap (snd res) s = None)"
    using over freed by simp
  have c3: "\<not> overflows env s p w \<and> 4 \<le> len b \<and>
            ((\<exists>c \<in> set (take 4 (data b)). hex_digit c = None) \<or>
             n < 1 \<or> MAX_PAYLOAD_V1 env < n) \<longrightarrow>
            res = (-1, smart_socket_close s (taken_in s p w)) \<and>
            (status (snd res) = Running \<longrightarrow> heap (snd res) s = None)"
    using bad freed by simp
  have c4: "(\<exists>c \<in> set (take 4 (data b)). hex_digit c = None) \<longrightarrow>
            unhex (data b) 4 = 0xFFFFFFFF"
    using nothex by simp
  show ?thesis
    by (intro conjI c1 c2 c3 c4)
qed

text \<open>
  The bytes \<open>0010host:\<close> (nine bytes of a frame of twenty) arrive at the smart endpoint
  at address 11: the result is 0 and the endpoint holds the bytes. The bytes \<open>00g0\<close>
  arrive instead: the result is -1 and the endpoint is freed.
\<close>

theorem smart_socket_enqueue_framing_witness:
  "status world_local_smart = Running \<and>
   heap world_local_smart 11 = Some (example_smart\<lparr>peer := Some 10\<rparr>) \<and>
   close (example_smart\<lparr>peer := Some 10\<rparr>) = Some smart_socket_close_fn \<and>
   get_max_payload example_env 11 world_local_smart \<noteq> None \<and>
   MAX_PAYLOAD_V1 example_env + 4 < 2 ^ 32 \<and>
   \<not> overflows example_env 11 (packet_of ''0010host:'') world_local_smart \<and>
   unat (unhex (data (packet_of ''0010host:'')) 4) = 16 \<and>
   len (packet_of ''0010host:'') = 9 \<and>
   smart_socket_enqueue example_env 11 (packet_of ''0010host:'') world_local_smart =
     (0, taken_in 11 (packet_of ''0010host:'') world_local_smart) \<and>
   heap (taken_in 11 (packet_of ''0010host:'') world_local_smart) 11 =
     Some (example_smart\<lparr>peer := Some 10, pkt_queue := [packet_of ''0010host:'']\<rparr>) \<and>
   \<not> overflows example_env 11 (packet_of ''00g0'') world_local_smart \<and>
   len (packet_of ''00g0'') = 4 \<and>
   hex_digit (CHR ''g'') = None \<and>
   smart_socket_enqueue example_env 11 (packet_of ''00g0'') world_local_smart =
     (-1, smart_socket_close 11 (taken_in 11 (packet_of ''00g0'') world_local_smart)) \<and>
   status (smart_socket_close 11 (taken_in 11 (packet_of ''00g0'') world_local_smart)) = Running \<and>
   heap (snd (smart_socket_enqueue example_env 11 (packet_of ''00g0'') world_local_smart)) 11 = None"
proof -
  let ?so = "example_smart\<lparr>peer := Some 10\<rparr>"
  have h: "status world_local_smart = Running"
    "heap world_local_smart 11 = Some ?so"
    "close ?so = Some smart_socket_close_fn"
    "get_max_payload example_env 11 world_local_smart \<noteq> None"
    "MAX_PAYLOAD_V1 example_env + 4 < 2 ^ 32"
    by (simp_all add: world_local_smart_def example_smart_def example_local_def
        calloc_asocket_def get_max_payload_def example_env_def)
  have acc: "accumulated ?so p = p" for p
    by (simp add: accumulated_def example_smart_def calloc_asocket_def)
  have c: "\<not> overflows example_env 11 (packet_of ''0010host:'') world_local_smart"
    "unat (unhex (data (packet_of ''0010host:'')) 4) = 16"
    "len (packet_of ''0010host:'') = 9"
    "MAX_PAYLOAD_V1 example_env = 4096"
    "\<not> overflows example_env 11 (packet_of ''00g0'') world_local_smart"
    "len (packet_of ''00g0'') = 4"
    "hex_digit (CHR ''g'') = None"
    "data (packet_of ''00g0'') = ''00g0''"
    by (simp_all add: overflows_def world_local_smart_def example_smart_def calloc_asocket_def
        packet_of_def unhex_def hex_digit_def example_env_def)
  have t: "heap (taken_in 11 (packet_of ''0010host:'') world_local_smart) 11 =
     Some (example_smart\<lparr>peer := Some 10, pkt_queue := [packet_of ''0010host:'']\<rparr>)"
    by (simp add: taken_in_def world_local_smart_def example_smart_def calloc_asocket_def)
  have r: "status (smart_socket_close 11 (taken_in 11 (packet_of ''00g0'') world_local_smart)) = Running"
    by code_simp
  note t1 = smart_socket_enqueue_framing [OF h, of "packet_of ''0010host:''", THEN conjunct1]
  note t2 = smart_socket_enqueue_framing [OF h, of "packet_of ''00g0''", THEN conjunct2,
      THEN conjunct2, THEN conjunct1]
  have r1: "smart_socket_enqueue example_env 11 (packet_of ''0010host:'') world_local_smart =
     (0, taken_in 11 (packet_of ''0010host:'') world_local_smart)"
    using t1 c by (simp add: acc)
  have ante: "\<not> overflows example_env 11 (packet_of ''00g0'') world_local_smart \<and>
      4 \<le> len (accumulated ?so (packet_of ''00g0'')) \<and>
      ((\<exists>c \<in> set (take 4 (data (accumulated ?so (packet_of ''00g0'')))). hex_digit c = None) \<or>
       unat (unhex (data (accumulated ?so (packet_of ''00g0''))) 4) < 1 \<or>
       MAX_PAYLOAD_V1 example_env < unat (unhex (data (accumulated ?so (packet_of ''00g0''))) 4))"
    using c by (simp add: acc)
  note t3 = t2 [THEN mp, OF ante]
  have r2: "smart_socket_enqueue example_env 11 (packet_of ''00g0'') world_local_smart =
     (-1, smart_socket_close 11 (taken_in 11 (packet_of ''00g0'') world_local_smart))"
    using t3 by (rule conjunct1)
  have r3: "heap (snd (smart_socket_enqueue example_env 11 (packet_of ''00g0'') world_local_smart)) 11 = None"
    using t3 [THEN conjunct2] r by (simp add: r2)
  show ?thesis
    using h c(1,2,3,5,6,7) t r r1 r2 r3 by simp
qed

text \<open>
  The header \<open>FFFF\<close> decodes to 65535, and 4 + 65535 exceeds the four bytes held; yet the
  result is -1 and the endpoint is freed, because 65535 is larger than \<open>MAX_PAYLOAD_V1\<close>.
\<close>

theorem smart_socket_enqueue_framing_counterexample:
  "unat (unhex (data (packet_of ''FFFF'')) 4) = 65535 \<and>
   len (packet_of ''FFFF'') < 4 + 65535 \<and>
   fst (smart_socket_enqueue example_env 11 (packet_of ''FFFF'') world_local_smart) = -1 \<and>
   heap (snd (smart_socket_enqueue example_env 11 (packet_of ''FFFF'') world_local_smart)) 11 = None"
proof -
  let ?so = "example_smart\<lparr>peer := Some 10\<rparr>"
  let ?p = "packet_of ''FFFF''"
  have h: "status world_local_smart = Running" "heap world_local_smart 11 = Some ?so"
    "get_max_payload example_env 11 world_local_smart \<noteq> None"
    by (simp_all add: world_local_smart_def example_smart_def example_local_def
        calloc_asocket_def get_max_payload_def example_env_def)
  have c: "\<not> overflows example_env 11 ?p world_local_smart"
    "unat (unhex (data ?p) 4) = 65535" "len ?p = 4" "MAX_PAYLOAD_V1 example_env = 4096"
    "pkt_queue ?so = []"
    by (simp_all add: overflows_def world_local_smart_def example_smart_def calloc_asocket_def
        packet_of_def unhex_def hex_digit_def example_env_def)
  have t: "status (taken_in 11 ?p world_local_smart) = Running"
    "heap (taken_in 11 ?p world_local_smart) 11 = Some (?so\<lparr>pkt_queue := [?p]\<rparr>)"
    using h(1,2) c(5) by (simp_all add: taken_in_def)
  have "smart_socket_frame example_env ?p = frame_bad_size"
    using c by (intro smart_socket_frame_bad) simp_all
  moreover have "pkt_queue (?so\<lparr>pkt_queue := [?p]\<rparr>) = [?p]"
    by simp
  ultimately have "smart_socket_request example_env 11 (taken_in 11 ?p world_local_smart) =
      fail_label 11 (taken_in 11 ?p world_local_smart)"
    using t by (intro smart_socket_request_bad)
  then have eq: "smart_socket_enqueue example_env 11 ?p world_local_smart =
      (-1, asocket_close 11 (taken_in 11 ?p world_local_smart))"
    using smart_socket_enqueue_accumulates [OF h(1,2,3) c(1)] by (simp add: fail_label_def)
  have "heap (asocket_close 11 (taken_in 11 ?p world_local_smart)) 11 = None"
    by code_simp
  then show ?thesis
    using c by (simp add: eq)
qed

section \<open>The framing round trip\<close>

text \<open>
  C8, as the code has it. A request of \<open>L\<close> bytes, none of them NUL, with
  \<open>1 \<le> L \<le> MAX_PAYLOAD_V1\<close>, sent as the four hex digits of \<open>L\<close> (\<^verbatim>\<open>"%04x"\<close>) followed by
  the bytes: the framing step finds the request complete, decodes the length \<open>L\<close>, and
  the C string it leaves at \<^verbatim>\<open>p->data + 4\<close> is the request.
\<close>

theorem smart_socket_frame_roundtrip:
  assumes "1 \<le> length payload" and "length payload \<le> MAX_PAYLOAD_V1 env"
    and "MAX_PAYLOAD_V1 env < 65536" and "CHR 0x00 \<notin> set payload"
  shows "smart_socket_frame env (packet_of (hex4 (length payload) @ payload)) =
           frame_complete (of_nat (length payload))
             (hex4 (length payload) @ payload @ [CHR 0x00]) \<and>
         unat (of_nat (length payload) :: 32 word) = length payload \<and>
         c_string (hex4 (length payload) @ payload @ [CHR 0x00]) 4 = payload"
proof -
  let ?L = "length payload"
  let ?frame = "hex4 ?L @ payload"
  have L: "?L < 65536" using assms by simp
  have h4: "length (hex4 ?L) = 4" by (simp add: hex4_def)
  have u: "unhex ?frame 4 = of_nat ?L"
    using L by (rule unhex_hex4)
  have un: "unat (of_nat ?L :: 32 word) = ?L"
    using L by (simp add: unat_of_nat take_bit_nat_eq_self)
  have un4: "unat (of_nat ?L + 4 :: 32 word) = ?L + 4"
    using L un unat_plus_4 [of "of_nat ?L"] by simp
  have ge: "\<not> (of_nat ?L :: 32 word) < 1"
  proof -
    have "unat (1 :: 32 word) = 1" by simp
    then show ?thesis
      using assms(1) un unfolding word_less_nat_alt by linarith
  qed
  have sb: "store_byte ?frame (?L + 4) (CHR 0x00) = hex4 ?L @ payload @ [CHR 0x00]"
    by (simp add: store_byte_def h4)
  have frame: "smart_socket_frame env (packet_of ?frame) =
      frame_complete (of_nat ?L) (hex4 ?L @ payload @ [CHR 0x00])"
    using assms(2) ge
    by (simp add: smart_socket_frame_def packet_of_def u un un4 sb h4 Let_def)
  have "c_string (hex4 ?L @ payload @ [CHR 0x00]) 4 = takeWhile (\<lambda>c. c \<noteq> CHR 0x00) (payload @ [CHR 0x00])"
    by (simp add: c_string_def h4)
  also have "\<dots> = payload"
  proof -
    have "\<And>c. c \<in> set payload \<Longrightarrow> c \<noteq> CHR 0x00"
      using assms(4) by auto
    then show ?thesis by (simp add: takeWhile_append2)
  qed
  finally show ?thesis
    using frame un by simp
qed

text \<open>The request \<open>shell:ls\<close>, framed as \<open>0008shell:ls\<close>.\<close>

theorem smart_socket_frame_roundtrip_witness:
  "1 \<le> length ''shell:ls'' \<and> length ''shell:ls'' \<le> MAX_PAYLOAD_V1 example_env \<and>
   MAX_PAYLOAD_V1 example_env < 65536 \<and> CHR 0x00 \<notin> set ''shell:ls'' \<and>
   hex4 (length ''shell:ls'') @ ''shell:ls'' = ''0008shell:ls'' \<and>
   smart_socket_frame example_env (packet_of ''0008shell:ls'') =
     frame_complete 8 (''0008shell:ls'' @ [CHR 0x00]) \<and>
   c_string (''0008shell:ls'' @ [CHR 0x00]) 4 = ''shell:ls''"
proof -
  have h: "1 \<le> length ''shell:ls''" "length ''shell:ls'' \<le> MAX_PAYLOAD_V1 example_env"
    "MAX_PAYLOAD_V1 example_env < 65536" "CHR 0x00 \<notin> set ''shell:ls''"
    by (simp_all add: example_env_def)
  have e: "hex4 (length ''shell:ls'') @ ''shell:ls'' = ''0008shell:ls''"
    by (simp add: hex4_def hex_char_def)
  show ?thesis
    using h e smart_socket_frame_roundtrip [OF h] by simp
qed

text \<open>
  The three bytes \<open>a\<close>, NUL, \<open>b\<close>, framed with the header \<open>0003\<close>: the frame is complete
  with length 3, but the request read at \<^verbatim>\<open>p->data + 4\<close> is \<open>a\<close>.
\<close>

theorem smart_socket_frame_roundtrip_counterexample:
  "length [CHR ''a'', CHR 0x00, CHR ''b''] = 3 \<and>
   hex4 3 = ''0003'' \<and>
   smart_socket_frame example_env (packet_of (''0003'' @ [CHR ''a'', CHR 0x00, CHR ''b''])) =
     frame_complete 3 (''0003'' @ [CHR ''a'', CHR 0x00, CHR ''b'', CHR 0x00]) \<and>
   c_string (''0003'' @ [CHR ''a'', CHR 0x00, CHR ''b'', CHR 0x00]) 4 = ''a'' \<and>
   ''a'' \<noteq> [CHR ''a'', CHR 0x00, CHR ''b'']"
  by (simp add: hex4_def hex_char_def smart_socket_frame_def packet_of_def unhex_def hex_digit_def
      store_byte_def c_string_def example_env_def Let_def)

section \<open>A host request that is handled at once\<close>






















end
